theory Spec2Isabelle
  imports Complex_Main "HOL-Library.Word"
begin

section \<open>Values, maps and the store\<close>

text \<open>
  A Go \<^verbatim>\<open>map[string]any\<close> is a reference: two variables can name the same map object,
  and a write through one is seen through the other. Map objects therefore live in a
  store, and a map value is the address of its object, or nil. The only write the
  package performs on a map is \<^verbatim>\<open>state.Variables[k] = v\<close>; every other access is a read.

  \<^verbatim>\<open>float64\<close> is the type parameter \<open>'f\<close>: its arithmetic, comparisons and formatting
  are supplied by the record \<open>golib\<close> below, so no theorem depends on an idealised
  arithmetic. A \<^verbatim>\<open>float32\<close> is held as the \<^verbatim>\<open>float64\<close> it converts to (the conversion is
  exact). Slices are never written by the package and are held as lists.
\<close>

type_synonym addr = nat

datatype 'f anyv =
    ANil
  | AStr string
  | AFloat64 'f
  | AFloat32 'f
  | AInt "64 word"
  | AInt64 "64 word"
  | ABool bool
  | ASlice "'f anyv list"
  | AMap "addr option"

type_synonym 'f gomap = "string \<rightharpoonup> 'f anyv"

text \<open>
  The workflow definition (models.go): nodes and edges. Position, styling and the creation
  and update times are read by no function modelled here and are left out of the records.
  The metadata of a node is a map object.
\<close>

record NodeData =
  Label :: string
  Description :: string
  Metadata :: "addr option"

record Node =
  ID :: string
  Type :: string
  Data :: NodeData

record Edge =
  EdgeID :: string
  Source :: string
  Target :: string
  SourceHandle :: string

record Workflow =
  WorkflowID :: string
  Name :: string
  Nodes :: "Node list"
  Edges :: "Edge list"

text \<open>
  The runtime: the store of map objects with its allocation pointer, the store of the
  workflow definitions (the objects a \<^verbatim>\<open>*Workflow\<close> points to), the wall clock (the
  reading each successive call of \<^verbatim>\<open>time.Now\<close> returns) and the source of run identifiers
  (the token each successive call of \<^verbatim>\<open>uuid.New\<close> returns).
\<close>

record 'f runtime =
  cells :: "addr \<Rightarrow> 'f gomap"
  next_addr :: addr
  workflows :: "addr \<Rightarrow> Workflow"
  clock :: "nat \<Rightarrow> int"
  ticks :: nat
  uuids :: "nat \<Rightarrow> string"
  drawn :: nat

definition time_Now :: "'f runtime \<Rightarrow> int \<times> 'f runtime" where
  "time_Now rt = (clock rt (ticks rt), rt\<lparr>ticks := Suc (ticks rt)\<rparr>)"

definition uuid_New :: "'f runtime \<Rightarrow> string \<times> 'f runtime" where
  "uuid_New rt = (uuids rt (drawn rt), rt\<lparr>drawn := Suc (drawn rt)\<rparr>)"

text \<open>\<^verbatim>\<open>make(map[string]any)\<close>: a fresh, empty map object.\<close>

definition make_map :: "'f runtime \<Rightarrow> addr \<times> 'f runtime" where
  "make_map rt =
     (next_addr rt,
      rt\<lparr>cells := (cells rt)(next_addr rt := Map.empty), next_addr := Suc (next_addr rt)\<rparr>)"

text \<open>\<^verbatim>\<open>m[k]\<close>: reading a nil map finds nothing.\<close>

definition map_get :: "'f runtime \<Rightarrow> addr option \<Rightarrow> string \<Rightarrow> 'f anyv option" where
  "map_get rt m k = (case m of None \<Rightarrow> None | Some a \<Rightarrow> cells rt a k)"

text \<open>\<^verbatim>\<open>m[k] = v\<close>: writing a nil map panics (the result is \<open>None\<close>).\<close>

definition map_set :: "'f runtime \<Rightarrow> addr option \<Rightarrow> string \<Rightarrow> 'f anyv \<Rightarrow> 'f runtime option" where
  "map_set rt m k v =
     (case m of
        None \<Rightarrow> None
      | Some a \<Rightarrow> Some (rt\<lparr>cells := (cells rt)(a := (cells rt a)(k \<mapsto> v))\<rparr>))"

text \<open>The type assertions \<^verbatim>\<open>v.(string)\<close>, \<^verbatim>\<open>v.(float64)\<close>, \<^verbatim>\<open>v.([]any)\<close> and
  \<^verbatim>\<open>v.(map[string]any)\<close> in their two-result form, on the result of a map read.\<close>

fun as_string :: "'f anyv option \<Rightarrow> string option" where
  "as_string (Some (AStr s)) = Some s"
| "as_string _ = None"

fun as_float64 :: "'f anyv option \<Rightarrow> 'f option" where
  "as_float64 (Some (AFloat64 x)) = Some x"
| "as_float64 _ = None"

fun as_slice :: "'f anyv option \<Rightarrow> 'f anyv list option" where
  "as_slice (Some (ASlice xs)) = Some xs"
| "as_slice _ = None"

fun as_map :: "'f anyv option \<Rightarrow> addr option option" where
  "as_map (Some (AMap m)) = Some m"
| "as_map _ = None"

text \<open>\<^verbatim>\<open>s, _ := v.(string)\<close>: the zero value when the assertion fails.\<close>

definition string_or_zero :: "'f anyv option \<Rightarrow> string" where
  "string_or_zero v = (case as_string v of Some s \<Rightarrow> s | None \<Rightarrow> [])"

section \<open>The standard library the package calls\<close>

text \<open>
  Functions of Go's standard library whose results the package only passes on. They
  are parameters of the model: \<^verbatim>\<open>strings.EqualFold\<close>, \<^verbatim>\<open>strings.TrimSpace\<close>, the verbs
  \<^verbatim>\<open>%q\<close> and \<^verbatim>\<open>%.1f\<close> of \<^verbatim>\<open>fmt\<close>, \<^verbatim>\<open>%s\<close> on an operand that is not a string,
  \<^verbatim>\<open>math.Round\<close>, the \<^verbatim>\<open>float64\<close> operations \<^verbatim>\<open>*\<close>, \<^verbatim>\<open>/\<close>, \<^verbatim>\<open>>\<close>, \<^verbatim>\<open><\<close>, \<^verbatim>\<open>==\<close>, \<^verbatim>\<open>>=\<close>, \<^verbatim>\<open><=\<close>, the conversion of
  an integer to \<^verbatim>\<open>float64\<close>, and \<^verbatim>\<open>Time.UTC().Format(time.RFC3339)\<close>.
\<close>

record 'f golib =
  strings_EqualFold :: "string \<Rightarrow> string \<Rightarrow> bool"
  strings_TrimSpace :: "string \<Rightarrow> string"
  fmt_q :: "string \<Rightarrow> string"
  fmt_f1 :: "'f \<Rightarrow> string"
  fmt_s_other :: "'f anyv option \<Rightarrow> string"
  math_Round :: "'f \<Rightarrow> 'f"
  f_mul :: "'f \<Rightarrow> 'f \<Rightarrow> 'f"
  f_div :: "'f \<Rightarrow> 'f \<Rightarrow> 'f"
  f_gt :: "'f \<Rightarrow> 'f \<Rightarrow> bool"
  f_lt :: "'f \<Rightarrow> 'f \<Rightarrow> bool"
  f_eq :: "'f \<Rightarrow> 'f \<Rightarrow> bool"
  f_ge :: "'f \<Rightarrow> 'f \<Rightarrow> bool"
  f_le :: "'f \<Rightarrow> 'f \<Rightarrow> bool"
  f_of_int :: "int \<Rightarrow> 'f"
  time_Format :: "int \<Rightarrow> string"

text \<open>\<^verbatim>\<open>%s\<close> on an \<^verbatim>\<open>any\<close> operand: a string is printed as it is.\<close>

definition fmt_s :: "'f golib \<Rightarrow> 'f anyv option \<Rightarrow> string" where
  "fmt_s L v = (case as_string v of Some s \<Rightarrow> s | None \<Rightarrow> fmt_s_other L v)"

text \<open>\<^verbatim>\<open>Duration.Milliseconds\<close> of a difference of two clock readings (nanoseconds):
  integer division truncating toward zero.\<close>

definition Milliseconds :: "int \<Rightarrow> int" where
  "Milliseconds d = (if 0 \<le> d then d div 1000000 else - ((- d) div 1000000))"

text \<open>The degree sign of the messages, U+00B0, in UTF-8.\<close>

definition degree :: string where
  "degree = [CHR 0xC2, CHR 0xB0]"

section \<open>The state, the steps and the results (models.go, executor.go)\<close>

record 'f ConditionInput =
  Operator :: string
  Threshold :: 'f

record 'f ExecutionState =
  FormData :: "addr option"
  Condition :: "'f ConditionInput"
  Variables :: "addr option"

text \<open>
  Output bags. A handler builds its output from map literals, which nothing reads
  back or writes afterwards; they are held by their contents (\<open>OObj\<close>). A map object
  that existed before (the form values the form handler echoes) is held by reference.
\<close>

datatype 'f outv =
    OStr string
  | OFloat 'f
  | OBool bool
  | OInt int
  | ORef "addr option"
  | OObj "(string \<times> 'f outv) list"

type_synonym 'f outbag = "(string \<times> 'f outv) list"

record 'f StepResult =
  r_NodeID :: string
  r_NodeType :: string
  r_Label :: string
  r_Status :: string
  r_Output :: "'f outbag"
  r_Duration :: int
  r_Error :: string

record 'f ExecutionStep =
  StepNumber :: nat
  NodeID :: string
  NodeType :: string
  s_Type :: string
  s_Label :: string
  Status :: string
  Duration :: int
  Output :: "'f outbag"
  Timestamp :: string
  Error :: string

record 'f ExecutionResults =
  ExecutionID :: string
  x_Status :: string
  StartTime :: string
  EndTime :: string
  TotalDuration :: int
  Steps :: "'f ExecutionStep list"

text \<open>What a Go call can do: panic, return an error (its text), or return a value.\<close>

datatype 'a go_result = Panicked string | Failed string | Returned 'a

text \<open>\<^verbatim>\<open>NodeExecutor.Execute(ctx, node, state)\<close>: the node is passed by value, the state by
  pointer; the handler may change the state and the runtime. It panics, returns an error
  (whatever result comes with it is not looked at), or returns a result.\<close>

type_synonym 'f handler =
  "Node \<Rightarrow> 'f ExecutionState \<Rightarrow> 'f runtime
     \<Rightarrow> 'f StepResult go_result \<times> 'f ExecutionState \<times> 'f runtime"

type_synonym 'f Registry = "string \<rightharpoonup> 'f handler"

text \<open>\<^verbatim>\<open>WeatherClient.GetTemperature(ctx, lat, lon)\<close>: an error text or a temperature.\<close>

type_synonym 'f WeatherClient = "'f \<Rightarrow> 'f \<Rightarrow> string + 'f"

section \<open>The node handlers (executors.go)\<close>

definition StartExecutor :: "'f handler" where
  "StartExecutor node state rt =
     (Returned \<lparr>r_NodeID = ID node, r_NodeType = Type node, r_Label = Label (Data node),
        r_Status = ''completed'',
        r_Output = [(''message'', OStr ''Workflow execution started'')],
        r_Duration = 0, r_Error = []\<rparr>,
      state, rt)"

text \<open>The loop of the form handler over the required fields: the first error, if any.\<close>

fun form_fields :: "'f golib \<Rightarrow> 'f runtime \<Rightarrow> addr option \<Rightarrow> string list \<Rightarrow> string option" where
  "form_fields L rt fd [] = None"
| "form_fields L rt fd (field # rest) =
     (case map_get rt fd field of
        None \<Rightarrow> Some (''missing required field: '' @ field)
      | Some val \<Rightarrow>
          (case as_string (Some val) of
             None \<Rightarrow> Some (''field '' @ field @ '' must be a non-empty string'')
           | Some s \<Rightarrow>
               if strings_TrimSpace L s = []
               then Some (''field '' @ field @ '' must be a non-empty string'')
               else form_fields L rt fd rest))"

definition FormExecutor :: "'f golib \<Rightarrow> 'f handler" where
  "FormExecutor L node state rt =
     (case form_fields L rt (FormData state) [''name'', ''email'', ''city''] of
        Some e \<Rightarrow> (Failed e, state, rt)
      | None \<Rightarrow>
          (Returned \<lparr>r_NodeID = ID node, r_NodeType = Type node, r_Label = Label (Data node),
             r_Status = ''completed'',
             r_Output =
               [(''message'',
                 OStr (''Collected user input for '' @ fmt_s L (map_get rt (FormData state) ''name''))),
                (''formData'', ORef (FormData state))],
             r_Duration = 0, r_Error = []\<rparr>,
           state, rt))"

text \<open>\<^verbatim>\<open>toFloat64\<close>: \<open>None\<close> is the result \<^verbatim>\<open>(0, false)\<close>.\<close>

fun toFloat64 :: "'f golib \<Rightarrow> 'f anyv option \<Rightarrow> 'f option" where
  "toFloat64 L (Some (AFloat64 n)) = Some n"
| "toFloat64 L (Some (AFloat32 n)) = Some n"
| "toFloat64 L (Some (AInt n)) = Some (f_of_int L (sint n))"
| "toFloat64 L (Some (AInt64 n)) = Some (f_of_int L (sint n))"
| "toFloat64 L _ = None"

text \<open>The loop of the integration handler over the options of the node: it ends at the
  first entry that is a map and whose city matches, with its coordinates or with the
  error of coordinates that are not numbers.\<close>

datatype 'f coords = NotFound | InvalidCoordinates | Found 'f 'f

fun find_coords :: "'f golib \<Rightarrow> 'f runtime \<Rightarrow> string \<Rightarrow> 'f anyv list \<Rightarrow> 'f coords" where
  "find_coords L rt city [] = NotFound"
| "find_coords L rt city (opt # opts) =
     (case as_map (Some opt) of
        None \<Rightarrow> find_coords L rt city opts
      | Some m \<Rightarrow>
          if strings_EqualFold L (string_or_zero (map_get rt m ''city'')) city
          then (case toFloat64 L (map_get rt m ''lat'') of
                  None \<Rightarrow> InvalidCoordinates
                | Some lat \<Rightarrow>
                    (case toFloat64 L (map_get rt m ''lon'') of
                       None \<Rightarrow> InvalidCoordinates
                     | Some lon \<Rightarrow> Found lat lon))
          else find_coords L rt city opts)"

definition node_options :: "'f runtime \<Rightarrow> Node \<Rightarrow> 'f anyv list" where
  "node_options rt node =
     (case as_slice (map_get rt (Metadata (Data node)) ''options'') of
        Some xs \<Rightarrow> xs
      | None \<Rightarrow> [])"

definition IntegrationExecutor :: "'f golib \<Rightarrow> 'f WeatherClient \<Rightarrow> 'f handler" where
  "IntegrationExecutor L client node state rt =
     (let city = string_or_zero (map_get rt (FormData state) ''city'') in
      case find_coords L rt city (node_options rt node) of
        InvalidCoordinates \<Rightarrow>
          (Failed (''invalid coordinates for city '' @ fmt_q L city), state, rt)
      | NotFound \<Rightarrow>
          (Failed (''city '' @ fmt_q L city @ '' not found in available options''), state, rt)
      | Found lat lon \<Rightarrow>
          (let endpoint = string_or_zero (map_get rt (Metadata (Data node)) ''apiEndpoint'') in
           case client lat lon of
             Inl err \<Rightarrow> (Failed (''weather API error: '' @ err), state, rt)
           | Inr temperature \<Rightarrow>
               (case map_set rt (Variables state) ''temperature'' (AFloat64 temperature) of
                  None \<Rightarrow> (Panicked ''assignment to entry in nil map'', state, rt)
                | Some rt' \<Rightarrow>
                    (Returned \<lparr>r_NodeID = ID node, r_NodeType = Type node,
                       r_Label = Label (Data node),
                       r_Status = ''completed'',
                       r_Output =
                         [(''message'',
                           OStr (''Current temperature in '' @ city @ '': ''
                                 @ fmt_f1 L temperature @ degree @ ''C'')),
                          (''temperature'', OFloat temperature),
                          (''location'', OStr city),
                          (''apiResponse'',
                           OObj [(''endpoint'', OStr endpoint),
                                 (''method'', OStr ''GET''),
                                 (''statusCode'', OInt 200),
                                 (''data'', OObj [(''temperature'', OFloat temperature)])])],
                       r_Duration = 0, r_Error = []\<rparr>,
                     state, rt'))))"

definition evaluateCondition :: "'f golib \<Rightarrow> 'f \<Rightarrow> string \<Rightarrow> 'f \<Rightarrow> bool" where
  "evaluateCondition L temperature operator threshold =
     (let t = f_div L (math_Round L (f_mul L temperature (f_of_int L 10))) (f_of_int L 10);
          th = f_div L (math_Round L (f_mul L threshold (f_of_int L 10))) (f_of_int L 10)
      in if operator = ''greater_than'' then f_gt L t th
         else if operator = ''less_than'' then f_lt L t th
         else if operator = ''equals'' then f_eq L t th
         else if operator = ''greater_than_or_equal'' then f_ge L t th
         else if operator = ''less_than_or_equal'' then f_le L t th
         else False)"

definition operatorSymbol :: "string \<Rightarrow> string" where
  "operatorSymbol op =
     (if op = ''greater_than'' then ''>''
      else if op = ''less_than'' then ''<''
      else if op = ''equals'' then ''=''
      else if op = ''greater_than_or_equal'' then ''>=''
      else if op = ''less_than_or_equal'' then ''<=''
      else ''?'')"

definition operatorLabel :: "string \<Rightarrow> string" where
  "operatorLabel op =
     (if op = ''greater_than'' then ''greater than''
      else if op = ''less_than'' then ''less than''
      else if op = ''equals'' then ''equal to''
      else if op = ''greater_than_or_equal'' then ''greater than or equal to''
      else if op = ''less_than_or_equal'' then ''less than or equal to''
      else op)"

definition ConditionExecutor :: "'f golib \<Rightarrow> 'f handler" where
  "ConditionExecutor L node state rt =
     (case map_get rt (Variables state) ''temperature'' of
        None \<Rightarrow> (Failed ''temperature variable not set'', state, rt)
      | Some tempRaw \<Rightarrow>
          (case toFloat64 L (Some tempRaw) of
             None \<Rightarrow> (Failed ''temperature is not a number'', state, rt)
           | Some temperature \<Rightarrow>
               (let operator = Operator (Condition state);
                    threshold = Threshold (Condition state);
                    result = evaluateCondition L temperature operator threshold
                in case map_set rt (Variables state) ''conditionResult''
                          (AStr (if result then ''true'' else ''false'')) of
                     None \<Rightarrow> (Panicked ''assignment to entry in nil map'', state, rt)
                   | Some rt' \<Rightarrow>
                       (let symbol = operatorSymbol operator;
                            expression = fmt_f1 L temperature @ '' '' @ symbol @ '' ''
                                         @ fmt_f1 L threshold;
                            message =
                              (if result
                               then ''Temperature '' @ fmt_f1 L temperature @ degree @ ''C is ''
                                    @ operatorLabel operator @ '' '' @ fmt_f1 L threshold
                                    @ degree @ ''C - condition met''
                               else ''Temperature '' @ fmt_f1 L temperature @ degree
                                    @ ''C is not '' @ operatorLabel operator @ '' ''
                                    @ fmt_f1 L threshold @ degree @ ''C - condition not met'')
                        in (Returned \<lparr>r_NodeID = ID node, r_NodeType = Type node,
                              r_Label = Label (Data node),
                              r_Status = ''completed'',
                              r_Output =
                                [(''message'', OStr message),
                                 (''conditionMet'', OBool result),
                                 (''conditionResult'',
                                  OObj [(''expression'', OStr expression),
                                        (''result'', OBool result),
                                        (''temperature'', OFloat temperature),
                                        (''operator'', OStr operator),
                                        (''threshold'', OFloat threshold)])],
                              r_Duration = 0, r_Error = []\<rparr>,
                            state, rt')))))"

text \<open>
  \<^verbatim>\<open>strings.NewReplacer(old1, new1, ...).Replace(s)\<close> for old strings that are not empty,
  as the three of the email handler are: the scan goes from left to right; where an
  old string starts, the first such pair of the argument list is taken, its new string
  is written and the scan goes on behind the old string; elsewhere the byte is copied.
\<close>

fun HasPrefix :: "string \<Rightarrow> string \<Rightarrow> bool" where
  "HasPrefix s [] = True"
| "HasPrefix [] (p # ps) = False"
| "HasPrefix (c # cs) (p # ps) = (c = p \<and> HasPrefix cs ps)"

text \<open>The replacement that applies at the head of \<open>s\<close>: its new string and the length of
  its old string.\<close>

fun replacer_lookup :: "(string \<times> string) list \<Rightarrow> string \<Rightarrow> (string \<times> nat) option" where
  "replacer_lookup [] s = None"
| "replacer_lookup ((old, new) # oldnew) s =
     (if old \<noteq> [] \<and> HasPrefix s old then Some (new, length old)
      else replacer_lookup oldnew s)"

fun Replace :: "(string \<times> string) list \<Rightarrow> string \<Rightarrow> string" where
  "Replace oldnew [] = []"
| "Replace oldnew (c # cs) =
     (case replacer_lookup oldnew (c # cs) of
        Some (new, keylen) \<Rightarrow> new @ Replace oldnew (drop (keylen - 1) cs)
      | None \<Rightarrow> c # Replace oldnew cs)"

definition EmailExecutor :: "'f golib \<Rightarrow> 'f handler" where
  "EmailExecutor L node state rt =
     (let name = string_or_zero (map_get rt (FormData state) ''name'');
          email = string_or_zero (map_get rt (FormData state) ''email'');
          city = string_or_zero (map_get rt (FormData state) ''city'');
          temperature =
            (case as_float64 (map_get rt (Variables state) ''temperature'') of
               Some x \<Rightarrow> x
             | None \<Rightarrow> f_of_int L 0);
          tmpl =
            (case as_map (map_get rt (Metadata (Data node)) ''emailTemplate'') of
               Some m \<Rightarrow> m
             | None \<Rightarrow> None);
          subject0 = string_or_zero (map_get rt tmpl ''subject'');
          body0 = string_or_zero (map_get rt tmpl ''body'');
          replacer =
            [(''{{name}}'', name), (''{{city}}'', city),
             (''{{temperature}}'', fmt_f1 L temperature)];
          body = Replace replacer body0;
          subject = Replace replacer subject0;
          (now, rt') = time_Now rt;
          emailDraft =
            [(''to'', OStr email),
             (''from'', OStr ''weather-alerts@example.com''),
             (''subject'', OStr subject),
             (''body'', OStr body),
             (''timestamp'', OStr (time_Format L now))]
      in (Returned \<lparr>r_NodeID = ID node, r_NodeType = Type node, r_Label = Label (Data node),
            r_Status = ''completed'',
            r_Output =
              [(''message'', OStr (''Weather alert email drafted for '' @ email)),
               (''emailDraft'', OObj emailDraft),
               (''emailContent'',
                OObj [(''to'', OStr email), (''subject'', OStr subject), (''body'', OStr body)]),
               (''emailSent'', OBool True)],
            r_Duration = 0, r_Error = []\<rparr>,
          state, rt'))"

definition EndExecutor :: "'f handler" where
  "EndExecutor node state rt =
     (Returned \<lparr>r_NodeID = ID node, r_NodeType = Type node, r_Label = Label (Data node),
        r_Status = ''completed'',
        r_Output = [(''message'', OStr ''Workflow execution completed'')],
        r_Duration = 0, r_Error = []\<rparr>,
      state, rt)"

definition NewRegistry :: "'f golib \<Rightarrow> 'f WeatherClient \<Rightarrow> 'f Registry" where
  "NewRegistry L weatherClient =
     [''start'' \<mapsto> StartExecutor,
      ''form'' \<mapsto> FormExecutor L,
      ''integration'' \<mapsto> IntegrationExecutor L weatherClient,
      ''condition'' \<mapsto> ConditionExecutor L,
      ''email'' \<mapsto> EmailExecutor L,
      ''end'' \<mapsto> EndExecutor]"

section \<open>The engine (engine.go)\<close>

definition maxSteps :: nat where
  "maxSteps = 100"

fun findStartNode :: "Node list \<Rightarrow> Node option" where
  "findStartNode [] = None"
| "findStartNode (n # nodes) = (if Type n = ''start'' then Some n else findStartNode nodes)"

text \<open>\<^verbatim>\<open>buildEdgeMap\<close>: the edges of each source, in the order of the definition. A source
  with no entry reads as the nil slice, which \<^verbatim>\<open>len\<close> and \<^verbatim>\<open>range\<close> take as empty.\<close>

fun buildEdgeMap_from :: "(string \<Rightarrow> Edge list) \<Rightarrow> Edge list \<Rightarrow> string \<Rightarrow> Edge list" where
  "buildEdgeMap_from m [] = m"
| "buildEdgeMap_from m (edge # edges) =
     buildEdgeMap_from (m(Source edge := m (Source edge) @ [edge])) edges"

definition buildEdgeMap :: "Edge list \<Rightarrow> string \<Rightarrow> Edge list" where
  "buildEdgeMap edges = buildEdgeMap_from (\<lambda>_. []) edges"

text \<open>The node index: a later node of the same id replaces an earlier one.\<close>

fun buildNodeMap_from :: "(string \<rightharpoonup> Node) \<Rightarrow> Node list \<Rightarrow> string \<rightharpoonup> Node" where
  "buildNodeMap_from m [] = m"
| "buildNodeMap_from m (n # nodes) = buildNodeMap_from (m(ID n \<mapsto> n)) nodes"

definition buildNodeMap :: "Node list \<Rightarrow> string \<rightharpoonup> Node" where
  "buildNodeMap nodes = buildNodeMap_from Map.empty nodes"

text \<open>The edge of a condition node: the target of the first edge whose handle is the
  token, or the empty string.\<close>

fun handle_target :: "Edge list \<Rightarrow> string \<Rightarrow> string" where
  "handle_target [] condResult = []"
| "handle_target (edge # edges) condResult =
     (if SourceHandle edge = condResult then Target edge else handle_target edges condResult)"

definition nextNodeID :: "'f runtime \<Rightarrow> 'f ExecutionState \<Rightarrow> Node \<Rightarrow> Edge list \<Rightarrow> string" where
  "nextNodeID rt state current edges =
     (if Type current = ''condition''
      then handle_target edges (string_or_zero (map_get rt (Variables state) ''conditionResult''))
      else (case edges of [] \<Rightarrow> [] | edge # _ \<Rightarrow> Target edge))"

text \<open>The variables of the loop.\<close>

record 'f loop_state =
  current :: Node
  stepNum :: nat
  steps :: "'f ExecutionStep list"
  state_of :: "'f ExecutionState"
  runtime_of :: "'f runtime"

type_synonym 'f run = "'f ExecutionResults go_result \<times> 'f ExecutionState \<times> 'f runtime"

text \<open>One pass through the body of the loop: it returns from \<^verbatim>\<open>Execute\<close>, breaks out of
  the loop, or goes on with the next node. A panic of the handler ends the run where it
  stands (the first case on the handler's outcome; the last case is never reached).\<close>

datatype 'f body_exit = Return "'f run" | Break "'f loop_state" | Continue "'f loop_state"

definition results :: "'f golib \<Rightarrow> string \<Rightarrow> int \<Rightarrow> 'f ExecutionStep list \<Rightarrow> 'f ExecutionState
    \<Rightarrow> 'f runtime \<Rightarrow> 'f run" where
  "results L status startTime steps' state rt =
     (let (endTime, rt1) = time_Now rt;
          (uid, rt2) = uuid_New rt1
      in (Returned \<lparr>ExecutionID = uid, x_Status = status,
            StartTime = time_Format L startTime,
            EndTime = time_Format L endTime,
            TotalDuration = Milliseconds (endTime - startTime),
            Steps = steps'\<rparr>,
          state, rt2))"

definition loop_body :: "'f Registry \<Rightarrow> 'f golib \<Rightarrow> (string \<Rightarrow> Edge list) \<Rightarrow> (string \<rightharpoonup> Node)
    \<Rightarrow> int \<Rightarrow> 'f loop_state \<Rightarrow> 'f body_exit" where
  "loop_body registry L edgeMap nodeMap startTime c =
     (case registry (Type (current c)) of
        None \<Rightarrow>
          Return (Failed (''no executor registered for node type '' @ fmt_q L (Type (current c))),
                  state_of c, runtime_of c)
      | Some executor \<Rightarrow>
          (let (stepStart, rt1) = time_Now (runtime_of c) in
           case executor (current c) (state_of c) rt1 of
             (Panicked p, state', rt2) \<Rightarrow> Return (Panicked p, state', rt2)
           | (outcome, state', rt2) \<Rightarrow>
               (let (stepEnd, rt3) = time_Now rt2;
                    duration = stepEnd - stepStart;
                    stepNum' = Suc (stepNum c);
                    (stamp, rt4) = time_Now rt3;
                    step = \<lparr>StepNumber = stepNum', NodeID = ID (current c),
                             NodeType = Type (current c), s_Type = Type (current c),
                             s_Label = Label (Data (current c)), Status = [],
                             Duration = Milliseconds duration, Output = [],
                             Timestamp = time_Format L stamp, Error = []\<rparr>
                in case outcome of
                     Failed execErr \<Rightarrow>
                       Return (results L ''failed'' startTime
                                 (steps c @ [step\<lparr>Status := ''error'', Error := execErr,
                                    Output := [(''message'', OStr (''Error: '' @ execErr))]\<rparr>])
                                 state' rt4)
                   | Returned result \<Rightarrow>
                       (let steps' = steps c @ [step\<lparr>Status := r_Status result,
                                                    Output := r_Output result\<rparr>];
                            edges = edgeMap (ID (current c));
                            next_id = nextNodeID rt4 state' (current c) edges
                        in if next_id = []
                           then Break \<lparr>current = current c, stepNum = stepNum', steps = steps',
                                        state_of = state', runtime_of = rt4\<rparr>
                           else (case nodeMap next_id of
                                   None \<Rightarrow>
                                     Return (Failed (''edge target node '' @ fmt_q L next_id
                                                     @ '' not found''),
                                             state', rt4)
                                 | Some next \<Rightarrow>
                                     Continue \<lparr>current = next, stepNum = stepNum',
                                       steps = steps', state_of = state', runtime_of = rt4\<rparr>))
                   | Panicked p \<Rightarrow> Return (Panicked p, state', rt2))))"

text \<open>The loop \<^verbatim>\<open>for stepNum < maxSteps\<close>: what \<^verbatim>\<open>Execute\<close> returns from inside it
  (\<open>Inl\<close>), or the variables with which it is left (\<open>Inr\<close>).\<close>

function run_loop :: "'f Registry \<Rightarrow> 'f golib \<Rightarrow> (string \<Rightarrow> Edge list) \<Rightarrow> (string \<rightharpoonup> Node)
    \<Rightarrow> int \<Rightarrow> 'f loop_state \<Rightarrow> 'f run + 'f loop_state" where
  "run_loop registry L edgeMap nodeMap startTime c =
     (if stepNum c < maxSteps
      then (case loop_body registry L edgeMap nodeMap startTime c of
              Return r \<Rightarrow> Inl r
            | Break c' \<Rightarrow> Inr c'
            | Continue c' \<Rightarrow> run_loop registry L edgeMap nodeMap startTime c')
      else Inr c)"
  by pat_completeness auto
termination
  by (relation "measure (\<lambda>(registry, L, edgeMap, nodeMap, startTime, c). maxSteps - stepNum c)")
     (auto simp: loop_body_def Let_def time_Now_def
           split: option.splits prod.splits go_result.splits if_splits)

declare run_loop.simps [simp del]

text \<open>\<^verbatim>\<open>if state.Variables == nil { state.Variables = make(map[string]any) }\<close>\<close>

definition init_Variables :: "'f ExecutionState \<Rightarrow> 'f runtime \<Rightarrow> 'f ExecutionState \<times> 'f runtime" where
  "init_Variables state rt =
     (case Variables state of
        None \<Rightarrow> (let (a, rt') = make_map rt in (state\<lparr>Variables := Some a\<rparr>, rt'))
      | Some _ \<Rightarrow> (state, rt))"

definition Execute :: "'f Registry \<Rightarrow> 'f golib \<Rightarrow> Workflow \<Rightarrow> 'f ExecutionState \<Rightarrow> 'f runtime
    \<Rightarrow> 'f run" where
  "Execute registry L workflow state rt =
     (let (state1, rt1) = init_Variables state rt;
          (startTime, rt2) = time_Now rt1
      in case findStartNode (Nodes workflow) of
           None \<Rightarrow> (Failed ''workflow has no start node'', state1, rt2)
         | Some start \<Rightarrow>
             (case run_loop registry L (buildEdgeMap (Edges workflow))
                     (buildNodeMap (Nodes workflow)) startTime
                     \<lparr>current = start, stepNum = 0, steps = [], state_of = state1,
                      runtime_of = rt2\<rparr> of
                Inl r \<Rightarrow> r
              | Inr c \<Rightarrow>
                  if stepNum c \<ge> maxSteps
                  then (Failed ''execution exceeded maximum of 100 steps (possible cycle)'',
                        state_of c, runtime_of c)
                  else results L ''completed'' startTime (steps c) (state_of c) (runtime_of c)))"


section \<open>The passes of a run\<close>

text \<open>
  To speak of the nodes a run visits: \<open>passes \<dots> k c\<close> is the loop state after \<open>k\<close> passes
  through the body from \<open>c\<close>, each of which went on to a next node; \<open>run_start\<close> and
  \<open>entry\<close> are the start time and the loop state with which \<^verbatim>\<open>Execute\<close> enters the loop;
  \<open>visit \<dots> k\<close> is the loop state with which pass \<open>k + 1\<close> of a run begins, when the run
  gets there.
\<close>

fun passes :: "'f Registry \<Rightarrow> 'f golib \<Rightarrow> (string \<Rightarrow> Edge list) \<Rightarrow> (string \<rightharpoonup> Node)
    \<Rightarrow> int \<Rightarrow> nat \<Rightarrow> 'f loop_state \<Rightarrow> 'f loop_state option" where
  "passes registry L edgeMap nodeMap startTime 0 c = Some c"
| "passes registry L edgeMap nodeMap startTime (Suc k) c =
     (case loop_body registry L edgeMap nodeMap startTime c of
        Continue c' \<Rightarrow> passes registry L edgeMap nodeMap startTime k c'
      | _ \<Rightarrow> None)"

definition run_start :: "'f ExecutionState \<Rightarrow> 'f runtime \<Rightarrow> int" where
  "run_start state rt = fst (time_Now (snd (init_Variables state rt)))"

definition entry :: "'f ExecutionState \<Rightarrow> 'f runtime \<Rightarrow> Node \<Rightarrow> 'f loop_state" where
  "entry state rt start =
     \<lparr>current = start, stepNum = 0, steps = [],
      state_of = fst (init_Variables state rt),
      runtime_of = snd (time_Now (snd (init_Variables state rt)))\<rparr>"

definition pass :: "'f Registry \<Rightarrow> 'f golib \<Rightarrow> Workflow \<Rightarrow> 'f ExecutionState \<Rightarrow> 'f runtime
    \<Rightarrow> 'f loop_state \<Rightarrow> 'f body_exit" where
  "pass registry L workflow state rt c =
     loop_body registry L (buildEdgeMap (Edges workflow)) (buildNodeMap (Nodes workflow))
       (run_start state rt) c"

definition visit :: "'f Registry \<Rightarrow> 'f golib \<Rightarrow> Workflow \<Rightarrow> 'f ExecutionState \<Rightarrow> 'f runtime
    \<Rightarrow> nat \<Rightarrow> 'f loop_state option" where
  "visit registry L workflow state rt k =
     (case findStartNode (Nodes workflow) of
        None \<Rightarrow> None
      | Some start \<Rightarrow>
          passes registry L (buildEdgeMap (Edges workflow)) (buildNodeMap (Nodes workflow))
            (run_start state rt) k (entry state rt start))"

section \<open>A library and the fixtures of the tests, for running examples\<close>

text \<open>
  An instance of the library on which the model can be run: strings are ASCII,
  \<^verbatim>\<open>float64\<close> values are the rationals with exact arithmetic, a time is printed as its
  reading. The theorems below hold for every library; this one only feeds the examples.
\<close>

definition ascii_lower :: "char \<Rightarrow> char" where
  "ascii_lower c =
     (case map_of (zip ''ABCDEFGHIJKLMNOPQRSTUVWXYZ'' ''abcdefghijklmnopqrstuvwxyz'') c of
        Some d \<Rightarrow> d
      | None \<Rightarrow> c)"

definition ascii_space :: "char \<Rightarrow> bool" where
  "ascii_space c = (c \<in> set [CHR '' '', CHR 0x09, CHR 0x0A, CHR 0x0B, CHR 0x0C, CHR 0x0D])"

fun digits :: "nat \<Rightarrow> string" where
  "digits n =
     (if n < 10 then [''0123456789'' ! n]
      else digits (n div 10) @ [''0123456789'' ! (n mod 10)])"

definition decimal1 :: "rat \<Rightarrow> string" where
  "decimal1 x =
     (let n = round (x * 10) in
      (if n < 0 then ''-'' else []) @ digits (nat \<bar>n\<bar> div 10) @ ''.'' @ digits (nat \<bar>n\<bar> mod 10))"

definition example_lib :: "rat golib" where
  "example_lib =
     \<lparr>strings_EqualFold = (\<lambda>s t. map ascii_lower s = map ascii_lower t),
      strings_TrimSpace = (\<lambda>s. rev (dropWhile ascii_space (rev (dropWhile ascii_space s)))),
      fmt_q = (\<lambda>s. [CHR 0x22] @ s @ [CHR 0x22]),
      fmt_f1 = decimal1,
      fmt_s_other = (\<lambda>v. ''%!s(?)''),
      math_Round = (\<lambda>x. of_int (round x)),
      f_mul = (\<lambda>x y. x * y),
      f_div = (\<lambda>x y. x / y),
      f_gt = (\<lambda>x y. x > y),
      f_lt = (\<lambda>x y. x < y),
      f_eq = (\<lambda>x y. x = y),
      f_ge = (\<lambda>x y. x \<ge> y),
      f_le = (\<lambda>x y. x \<le> y),
      f_of_int = of_int,
      time_Format = (\<lambda>t. digits (nat t))\<rparr>"

text \<open>\<^verbatim>\<open>mockWeatherClient\<close> of the tests: the error when there is one, else the temperature.\<close>

definition mockWeatherClient :: "'f \<Rightarrow> string option \<Rightarrow> 'f WeatherClient" where
  "mockWeatherClient temperature err lat lon =
     (case err of Some e \<Rightarrow> Inl e | None \<Rightarrow> Inr temperature)"

text \<open>\<^verbatim>\<open>testWorkflow\<close> and the state of the engine tests. The map objects of the fixtures:
  11 the form values, 12 the metadata of the integration node, 13 its option for Sydney,
  14 the metadata of the email node, 15 its template, 16 the accumulator (empty).\<close>

definition test_cells :: "addr \<Rightarrow> rat gomap" where
  "test_cells =
     (\<lambda>_. Map.empty)
     (11 := [''name'' \<mapsto> AStr ''Alice'', ''email'' \<mapsto> AStr ''alice@example.com'',
            ''city'' \<mapsto> AStr ''Sydney''],
      12 := [''apiEndpoint'' \<mapsto> AStr ''https://api.open-meteo.com/v1/forecast'',
            ''options'' \<mapsto> ASlice [AMap (Some 13)]],
      13 := [''city'' \<mapsto> AStr ''Sydney'', ''lat'' \<mapsto> AFloat64 (- 338688 / 10000),
            ''lon'' \<mapsto> AFloat64 (1512093 / 10000)],
      14 := [''emailTemplate'' \<mapsto> AMap (Some 15)],
      15 := [''subject'' \<mapsto> AStr ''Weather Alert'',
            ''body'' \<mapsto> AStr (''Alert for {{city}}! Temp: {{temperature}}'' @ degree @ ''C!'')])"

definition mk_node :: "string \<Rightarrow> string \<Rightarrow> string \<Rightarrow> addr option \<Rightarrow> Node" where
  "mk_node i t l m = \<lparr>ID = i, Type = t, Data = \<lparr>Label = l, Description = [], Metadata = m\<rparr>\<rparr>"

definition mk_edge :: "string \<Rightarrow> string \<Rightarrow> string \<Rightarrow> string \<Rightarrow> Edge" where
  "mk_edge i s t h = \<lparr>EdgeID = i, Source = s, Target = t, SourceHandle = h\<rparr>"

definition testWorkflow :: Workflow where
  "testWorkflow =
     \<lparr>WorkflowID = ''test-wf'', Name = ''Test Workflow'',
      Nodes =
        [mk_node ''start'' ''start'' ''Start'' None,
         mk_node ''form'' ''form'' ''User Input'' None,
         mk_node ''weather-api'' ''integration'' ''Weather API'' (Some 12),
         mk_node ''condition'' ''condition'' ''Check Condition'' None,
         mk_node ''email'' ''email'' ''Send Alert'' (Some 14),
         mk_node ''end'' ''end'' ''Complete'' None],
      Edges =
        [mk_edge ''e1'' ''start'' ''form'' [],
         mk_edge ''e2'' ''form'' ''weather-api'' [],
         mk_edge ''e3'' ''weather-api'' ''condition'' [],
         mk_edge ''e4'' ''condition'' ''email'' ''true'',
         mk_edge ''e5'' ''condition'' ''end'' ''false'',
         mk_edge ''e6'' ''email'' ''end'' []]\<rparr>"

text \<open>The runtime of the tests: the definition of \<^verbatim>\<open>testWorkflow\<close> is the object at 21.\<close>

definition test_runtime :: "rat runtime" where
  "test_runtime =
     \<lparr>cells = test_cells, next_addr = 17,
      workflows = (\<lambda>_. \<lparr>WorkflowID = [], Name = [], Nodes = [], Edges = []\<rparr>)
                    (21 := testWorkflow),
      clock = (\<lambda>n. 1000000 * int n), ticks = 0,
      uuids = (\<lambda>n. ''run-'' @ digits n), drawn = 0\<rparr>"

definition test_state :: "rat ExecutionState" where
  "test_state =
     \<lparr>FormData = Some 11,
      Condition = \<lparr>Operator = ''greater_than'', Threshold = 25\<rparr>,
      Variables = Some 16\<rparr>"

text \<open>The other workflows, states and registries of the engine tests; \<open>danglingWorkflow\<close>
  has an edge to a node that is not there.\<close>

definition empty_state :: "rat ExecutionState" where
  "empty_state = \<lparr>FormData = None, Condition = \<lparr>Operator = [], Threshold = 0\<rparr>, Variables = Some 16\<rparr>"







text \<open>The state and the runtime of the tests of the condition handler: the temperature is
  in the accumulator.\<close>

definition condition_runtime :: "rat \<Rightarrow> rat runtime" where
  "condition_runtime t = test_runtime\<lparr>cells := test_cells(16 := [''temperature'' \<mapsto> AFloat64 t])\<rparr>"

definition condition_state :: "string \<Rightarrow> rat \<Rightarrow> rat ExecutionState" where
  "condition_state operator threshold =
     \<lparr>FormData = None, Condition = \<lparr>Operator = operator, Threshold = threshold\<rparr>,
      Variables = Some 16\<rparr>"

section \<open>Notions for the statements\<close>

text \<open>The runtime after one reading of the clock.\<close>

definition tick :: "'f runtime \<Rightarrow> 'f runtime" where
  "tick rt = snd (time_Now rt)"

text \<open>Every handler of the registry that returns a result gives it the status
  \<^verbatim>\<open>completed\<close>.\<close>

definition completes :: "'f Registry \<Rightarrow> bool" where
  "completes R = (\<forall>ty h n s r sr s' r'. R ty = Some h \<and> h n s r = (Returned sr, s', r') \<longrightarrow> r_Status sr = ''completed'')"

text \<open>The step \<open>s\<close> is the record of a pass that began in loop state \<open>c\<close> and whose handler
  returned a result.\<close>

definition records :: "'f Registry \<Rightarrow> 'f loop_state \<Rightarrow> 'f ExecutionStep \<Rightarrow> bool" where
  "records R c s =
     (\<exists>h sr. R (Type (current c)) = Some h
        \<and> fst (h (current c) (state_of c) (tick (runtime_of c))) = Returned sr
        \<and> StepNumber s = Suc (stepNum c) \<and> NodeID s = ID (current c)
        \<and> NodeType s = Type (current c) \<and> s_Type s = Type (current c)
        \<and> s_Label s = Label (Data (current c))
        \<and> Status s = r_Status sr \<and> Output s = r_Output sr \<and> Error s = [])"

text \<open>For the handlers, in the words of the specification: the form value of a key when
  it is there and a string, else the empty string; the text of the temperature when the
  accumulator holds a \<^verbatim>\<open>float64\<close>, else \<^verbatim>\<open>0.0\<close>; the text of the email template
  under a key; whether an entry of the options is a map whose city matches; the first
  entry that matches; and the five operators.\<close>

definition form_text :: "'f runtime \<Rightarrow> 'f ExecutionState \<Rightarrow> string \<Rightarrow> string" where
  "form_text rt st k = (case map_get rt (FormData st) k of Some (AStr s) \<Rightarrow> s | _ \<Rightarrow> [])"

definition temperature_text :: "'f golib \<Rightarrow> 'f runtime \<Rightarrow> 'f ExecutionState \<Rightarrow> string" where
  "temperature_text L rt st =
     (case map_get rt (Variables st) ''temperature'' of
        Some (AFloat64 x) \<Rightarrow> fmt_f1 L x
      | _ \<Rightarrow> ''0.0'')"

definition template_text :: "'f runtime \<Rightarrow> Node \<Rightarrow> string \<Rightarrow> string" where
  "template_text rt node k =
     (case map_get rt (Metadata (Data node)) ''emailTemplate'' of
        Some (AMap m) \<Rightarrow> (case map_get rt m k of Some (AStr s) \<Rightarrow> s | _ \<Rightarrow> [])
      | _ \<Rightarrow> [])"

definition is_match :: "'f golib \<Rightarrow> 'f runtime \<Rightarrow> string \<Rightarrow> 'f anyv \<Rightarrow> bool" where
  "is_match L rt city opt =
     (case opt of
        AMap m \<Rightarrow> strings_EqualFold L (string_or_zero (map_get rt m ''city'')) city
      | _ \<Rightarrow> False)"

definition matching_option :: "'f golib \<Rightarrow> 'f runtime \<Rightarrow> string \<Rightarrow> 'f anyv list \<Rightarrow> addr option option" where
  "matching_option L rt city opts =
     (case find (is_match L rt city) opts of Some (AMap m) \<Rightarrow> Some m | _ \<Rightarrow> None)"

definition recognized :: "string set" where
  "recognized = {''greater_than'', ''less_than'', ''equals'', ''greater_than_or_equal'',
                 ''less_than_or_equal''}"

text \<open>A chain of \<open>n\<close> nodes, each with one edge to the next: a node of type \<^verbatim>\<open>start\<close>,
  then nodes of type \<^verbatim>\<open>email\<close>, then a last node of a given type, which may have edges
  of its own. Then the notions
  for what a run writes: only the map object of the accumulator; the sources of the runtime
  that a handler leaves alone; a registry whose handlers write nothing else; and the same
  for a return from the loop and for the loop state.\<close>

definition chain_id :: "nat \<Rightarrow> string" where
  "chain_id i = replicate (Suc i) CHR ''n''"

definition chain_node :: "nat \<Rightarrow> string \<Rightarrow> nat \<Rightarrow> Node" where
  "chain_node n lastType i =
     mk_node (chain_id i)
       (if i = 0 then ''start'' else if Suc i = n then lastType else ''email'') ''Step'' None"

definition chain_edge :: "nat \<Rightarrow> Edge" where
  "chain_edge i = mk_edge (CHR ''e'' # chain_id i) (chain_id i) (chain_id (Suc i)) []"

definition chainWorkflow :: "nat \<Rightarrow> string \<Rightarrow> Edge list \<Rightarrow> Workflow" where
  "chainWorkflow n lastType lastEdges =
     \<lparr>WorkflowID = ''chain'', Name = ''Chain'',
      Nodes = map (chain_node n lastType) [0..<n],
      Edges = map chain_edge [0..<n - 1] @ lastEdges\<rparr>"

definition only_accumulator_written :: "'f ExecutionState \<Rightarrow> 'f runtime \<Rightarrow> 'f runtime \<Rightarrow> bool" where
  "only_accumulator_written st rt rt' = (\<forall>a. Some a \<noteq> Variables st \<longrightarrow> cells rt' a = cells rt a)"

text \<open>What a built-in handler leaves alone: the allocation pointer, the workflow definitions,
  the clock but for the readings taken, and the identifier source.\<close>

definition same_sources :: "'f runtime \<Rightarrow> 'f runtime \<Rightarrow> bool" where
  "same_sources rt rt' =
     (next_addr rt' = next_addr rt \<and> workflows rt' = workflows rt \<and> clock rt' = clock rt
      \<and> uuids rt' = uuids rt \<and> drawn rt' = drawn rt)"

definition quiet :: "'f Registry \<Rightarrow> bool" where
  "quiet R =
     (\<forall>ty h node st rt out st' rt'. R ty = Some h \<longrightarrow> h node st rt = (out, st', rt') \<longrightarrow>
        st' = st \<and> only_accumulator_written st rt rt' \<and> same_sources rt rt')"

definition run_effect :: "'f ExecutionState \<Rightarrow> 'f runtime \<Rightarrow> 'f run \<Rightarrow> bool" where
  "run_effect st rt r =
     (case r of (out, st', rt') \<Rightarrow>
        st' = st \<and> only_accumulator_written st rt rt' \<and> next_addr rt' = next_addr rt
        \<and> workflows rt' = workflows rt \<and> uuids rt' = uuids rt
        \<and> (case out of
              Returned res \<Rightarrow>
                ExecutionID res = uuids rt (drawn rt) \<and> drawn rt' = Suc (drawn rt)
            | _ \<Rightarrow> drawn rt' = drawn rt))"

definition state_effect :: "'f loop_state \<Rightarrow> 'f loop_state \<Rightarrow> bool" where
  "state_effect c c' =
     (state_of c' = state_of c
      \<and> only_accumulator_written (state_of c) (runtime_of c) (runtime_of c')
      \<and> same_sources (runtime_of c) (runtime_of c'))"

text \<open>For two runs: two runtimes with the same maps (their clocks and identifier sources
  may differ); the erasure of what the claim sets aside (timestamps, durations, the run
  identifier, and the value under a key \<^verbatim>\<open>timestamp\<close> in an output); agreement of two
  handler calls, of two returns and of two loop states up to that erasure; and a registry
  whose handlers agree on runtimes with the same maps.\<close>

definition same_store :: "'f runtime \<Rightarrow> 'f runtime \<Rightarrow> bool" where
  "same_store rt1 rt2 = (cells rt1 = cells rt2 \<and> next_addr rt1 = next_addr rt2)"

definition blank_timestamp :: "'f outbag \<Rightarrow> 'f outbag" where
  "blank_timestamp kvs = map (\<lambda>(k, v). if k = ''timestamp'' then (k, OStr []) else (k, v)) kvs"

primrec erase_out :: "'f outv \<Rightarrow> 'f outv" where
  "erase_out (OStr s) = OStr s"
| "erase_out (OFloat x) = OFloat x"
| "erase_out (OBool b) = OBool b"
| "erase_out (OInt i) = OInt i"
| "erase_out (ORef m) = ORef m"
| "erase_out (OObj kvs) = OObj (blank_timestamp (map (map_prod id erase_out) kvs))"

definition erase_bag :: "'f outbag \<Rightarrow> 'f outbag" where
  "erase_bag kvs = blank_timestamp (map (map_prod id erase_out) kvs)"

definition erase_result :: "'f StepResult go_result \<Rightarrow> 'f StepResult go_result" where
  "erase_result r =
     (case r of Returned sr \<Rightarrow> Returned (sr\<lparr>r_Output := erase_bag (r_Output sr)\<rparr>) | _ \<Rightarrow> r)"

definition erase_step :: "'f ExecutionStep \<Rightarrow> 'f ExecutionStep" where
  "erase_step s = s\<lparr>Duration := 0, Timestamp := [], Output := erase_bag (Output s)\<rparr>"

definition erase_run :: "'f ExecutionResults go_result \<Rightarrow> 'f ExecutionResults go_result" where
  "erase_run r =
     (case r of
        Returned res \<Rightarrow>
          Returned (res\<lparr>ExecutionID := [], StartTime := [], EndTime := [], TotalDuration := 0,
                       Steps := map erase_step (Steps res)\<rparr>)
      | _ \<Rightarrow> r)"

definition handler_agree :: "'f StepResult go_result \<times> 'f ExecutionState \<times> 'f runtime
    \<Rightarrow> 'f StepResult go_result \<times> 'f ExecutionState \<times> 'f runtime \<Rightarrow> bool" where
  "handler_agree r1 r2 =
     (erase_result (fst r1) = erase_result (fst r2) \<and> fst (snd r1) = fst (snd r2)
      \<and> same_store (snd (snd r1)) (snd (snd r2)))"

definition clock_blind :: "'f Registry \<Rightarrow> bool" where
  "clock_blind R =
     (\<forall>ty h node st rt1 rt2. R ty = Some h \<longrightarrow> same_store rt1 rt2 \<longrightarrow>
        handler_agree (h node st rt1) (h node st rt2))"

definition run_agree :: "'f run \<Rightarrow> 'f run \<Rightarrow> bool" where
  "run_agree r1 r2 =
     (erase_run (fst r1) = erase_run (fst r2) \<and> fst (snd r1) = fst (snd r2)
      \<and> same_store (snd (snd r1)) (snd (snd r2)))"

definition state_agree :: "'f loop_state \<Rightarrow> 'f loop_state \<Rightarrow> bool" where
  "state_agree c1 c2 =
     (current c1 = current c2 \<and> stepNum c1 = stepNum c2
      \<and> map erase_step (steps c1) = map erase_step (steps c2)
      \<and> state_of c1 = state_of c2 \<and> same_store (runtime_of c1) (runtime_of c2))"

fun exit_agree :: "'f body_exit \<Rightarrow> 'f body_exit \<Rightarrow> bool" where
  "exit_agree (Return r1) (Return r2) = run_agree r1 r2"
| "exit_agree (Break c1) (Break c2) = state_agree c1 c2"
| "exit_agree (Continue c1) (Continue c2) = state_agree c1 c2"
| "exit_agree _ _ = False"

text \<open>A call made after another returned finds the identifier source the other left, or
  that source further advanced: no token is given back.\<close>

definition called_after :: "'f runtime \<Rightarrow> 'f runtime \<Rightarrow> bool" where
  "called_after rt' rt2 = (uuids rt2 = uuids rt' \<and> drawn rt' \<le> drawn rt2)"

text \<open>An identifier source that never repeats a token, before any call and after one call
  (at a later time of another clock); and a state whose accumulator is the metadata map of
  the integration node of \<^verbatim>\<open>testWorkflow\<close>.\<close>

definition unary_tokens :: "rat runtime" where
  "unary_tokens = test_runtime\<lparr>uuids := (\<lambda>n. replicate (Suc n) CHR ''u'')\<rparr>"

definition later_tokens :: "rat runtime" where
  "later_tokens = unary_tokens\<lparr>clock := (\<lambda>n. 7 + 3000000 * int n), ticks := 40, drawn := 1\<rparr>"


section \<open>The loop\<close>

lemma loop_body_Continue_stepNum:
  "loop_body R L em nm t0 c = Continue c' \<Longrightarrow> stepNum c' = Suc (stepNum c)"
  by (auto simp: loop_body_def Let_def split: option.splits prod.splits go_result.splits if_splits)

lemma passes_stepNum:
  "passes R L em nm t0 k c = Some c' \<Longrightarrow> stepNum c' = stepNum c + k"
proof (induction k arbitrary: c)
  case 0
  then show ?case by simp
next
  case (Suc k)
  then obtain c1 where b: "loop_body R L em nm t0 c = Continue c1"
    and p: "passes R L em nm t0 k c1 = Some c'"
    by (auto split: body_exit.splits)
  from Suc.IH[OF p] loop_body_Continue_stepNum[OF b] show ?case by simp
qed

lemma run_loop_passes:
  "passes R L em nm t0 k c = Some c' \<Longrightarrow> stepNum c + k \<le> maxSteps
   \<Longrightarrow> run_loop R L em nm t0 c = run_loop R L em nm t0 c'"
proof (induction k arbitrary: c)
  case 0
  then show ?case by simp
next
  case (Suc k)
  then obtain c1 where b: "loop_body R L em nm t0 c = Continue c1"
    and p: "passes R L em nm t0 k c1 = Some c'"
    by (auto split: body_exit.splits)
  have n: "stepNum c1 = Suc (stepNum c)" by (rule loop_body_Continue_stepNum[OF b])
  have lt: "stepNum c < maxSteps" using Suc.prems(2) by simp
  have "run_loop R L em nm t0 c = run_loop R L em nm t0 c1"
    using b lt by (subst run_loop.simps) simp
  also have "\<dots> = run_loop R L em nm t0 c'"
    using Suc.IH[OF p] Suc.prems(2) n by simp
  finally show ?case .
qed

lemma Execute_visit:
  assumes v: "visit R L w st rt k = Some c" and k: "k \<le> maxSteps"
  shows "Execute R L w st rt =
     (case run_loop R L (buildEdgeMap (Edges w)) (buildNodeMap (Nodes w)) (run_start st rt) c of
        Inl r \<Rightarrow> r
      | Inr c' \<Rightarrow>
          if stepNum c' \<ge> maxSteps
          then (Failed ''execution exceeded maximum of 100 steps (possible cycle)'',
                state_of c', runtime_of c')
          else results L ''completed'' (run_start st rt) (steps c') (state_of c') (runtime_of c'))"
proof -
  from v obtain start where s: "findStartNode (Nodes w) = Some start"
    and p: "passes R L (buildEdgeMap (Edges w)) (buildNodeMap (Nodes w)) (run_start st rt) k
              (entry st rt start) = Some c"
    by (auto simp: visit_def split: option.splits)
  have "stepNum (entry st rt start) + k \<le> maxSteps" using k by (simp add: entry_def)
  from run_loop_passes[OF p this] s show ?thesis
    unfolding Execute_def entry_def run_start_def
    by (simp add: split_def Let_def)
qed

lemma visit_stepNum: "visit R L w st rt k = Some c \<Longrightarrow> stepNum c = k"
  by (auto simp: visit_def entry_def split: option.splits dest!: passes_stepNum)


lemma run_loop_step:
  "stepNum c < maxSteps \<Longrightarrow>
   run_loop R L em nm t0 c =
     (case loop_body R L em nm t0 c of
        Return r \<Rightarrow> Inl r
      | Break c' \<Rightarrow> Inr c'
      | Continue c' \<Rightarrow> run_loop R L em nm t0 c')"
  by (subst run_loop.simps) simp

lemma run_loop_stop: "\<not> stepNum c < maxSteps \<Longrightarrow> run_loop R L em nm t0 c = Inr c"
  by (subst run_loop.simps) simp

lemma loop_body_Break_stepNum:
  "loop_body R L em nm t0 c = Break c' \<Longrightarrow> stepNum c' = Suc (stepNum c)"
  by (auto simp: loop_body_def Let_def split: option.splits prod.splits go_result.splits if_splits)

text \<open>What Execute returns when pass k+1 returns from inside the loop.\<close>
lemma Execute_Return:
  assumes v: "visit R L w st rt k = Some c" and k: "k < maxSteps"
    and r: "pass R L w st rt c = Return r"
  shows "Execute R L w st rt = r"
proof -
  have n: "stepNum c < maxSteps" using visit_stepNum[OF v] k by simp
  show ?thesis
    using r by (simp add: Execute_visit[OF v less_imp_le[OF k]] run_loop_step[OF n] pass_def)
qed

lemma Execute_Break:
  assumes v: "visit R L w st rt k = Some c" and k: "k < maxSteps"
    and r: "pass R L w st rt c = Break c'"
  shows "Execute R L w st rt =
     (if Suc k \<ge> maxSteps
      then (Failed ''execution exceeded maximum of 100 steps (possible cycle)'',
            state_of c', runtime_of c')
      else results L ''completed'' (run_start st rt) (steps c') (state_of c') (runtime_of c'))"
proof -
  have n: "stepNum c < maxSteps" using visit_stepNum[OF v] k by simp
  have "stepNum c' = Suc k"
    using loop_body_Break_stepNum[OF r[unfolded pass_def]] visit_stepNum[OF v] by simp
  then show ?thesis
    using r by (simp add: Execute_visit[OF v less_imp_le[OF k]] run_loop_step[OF n] pass_def)
qed




lemma passes_add:
  "passes R L em nm t0 (k + m) c =
     (case passes R L em nm t0 k c of None \<Rightarrow> None | Some c' \<Rightarrow> passes R L em nm t0 m c')"
  by (induction k arbitrary: c) (auto split: body_exit.splits)

lemma passes_Suc_last:
  "passes R L em nm t0 (Suc k) c =
     (case passes R L em nm t0 k c of
        None \<Rightarrow> None
      | Some c' \<Rightarrow> (case loop_body R L em nm t0 c' of Continue c'' \<Rightarrow> Some c'' | _ \<Rightarrow> None))"
  using passes_add[of R L em nm t0 k 1 c] by (simp split: option.splits body_exit.splits)

lemma visit_Suc:
  "visit R L w st rt (Suc k) =
     (case visit R L w st rt k of
        None \<Rightarrow> None
      | Some c \<Rightarrow> (case pass R L w st rt c of Continue c' \<Rightarrow> Some c' | _ \<Rightarrow> None))"
  by (simp add: visit_def pass_def passes_Suc_last del: passes.simps split: option.splits)

lemma visit_later_None:
  assumes "visit R L w st rt k = None" shows "visit R L w st rt (k + j) = None"
  by (induction j) (simp_all add: assms visit_Suc del: passes.simps)

lemma visit_stops:
  assumes v: "visit R L w st rt k = Some c" and p: "\<And>c'. pass R L w st rt c \<noteq> Continue c'"
    and j: "k < j"
  shows "visit R L w st rt j = None"
proof -
  have "visit R L w st rt (Suc k) = None"
    using v p by (simp add: visit_Suc split: body_exit.splits)
  from visit_later_None[OF this, of "j - Suc k"] j show ?thesis by simp
qed

lemma loop_body_ContinueD:
  assumes "loop_body R L em nm t0 c = Continue c'"
  shows "\<exists>h sr s. R (Type (current c)) = Some h
     \<and> fst (h (current c) (state_of c) (tick (runtime_of c))) = Returned sr
     \<and> steps c' = steps c @ [s]
     \<and> StepNumber s = Suc (stepNum c) \<and> NodeID s = ID (current c)
     \<and> NodeType s = Type (current c) \<and> s_Type s = Type (current c)
     \<and> s_Label s = Label (Data (current c))
     \<and> Status s = r_Status sr \<and> Output s = r_Output sr \<and> Error s = []"
  using assms
  by (auto simp: loop_body_def Let_def tick_def split_def
           split: option.splits go_result.splits if_splits)

lemma loop_body_FailedD:
  assumes h: "R (Type (current c)) = Some h"
    and f: "h (current c) (state_of c) (tick (runtime_of c)) = (Failed e, st', rt')"
  shows "\<exists>res rt''. loop_body R L em nm t0 c = Return (Returned res, st', rt'')
     \<and> x_Status res = ''failed''
     \<and> Steps res = steps c @
          [\<lparr>StepNumber = Suc (stepNum c), NodeID = ID (current c), NodeType = Type (current c),
            s_Type = Type (current c), s_Label = Label (Data (current c)), Status = ''error'',
            Duration = Milliseconds (fst (time_Now rt') - fst (time_Now (runtime_of c))),
            Output = [(''message'', OStr (''Error: '' @ e))],
            Timestamp = time_Format L (fst (time_Now (tick rt'))), Error = e\<rparr>]
     \<and> ExecutionID res = uuids rt' (drawn rt')"
  using h f
  by (simp add: loop_body_def Let_def tick_def split_def results_def time_Now_def uuid_New_def)

lemma pass_Continue_records:
  assumes "pass R L w st rt c = Continue c'"
  shows "\<exists>s. steps c' = steps c @ [s] \<and> records R c s"
  using loop_body_ContinueD[OF assms[unfolded pass_def]] unfolding records_def by blast

lemma visit_trace:
  "visit R L w st rt k = Some c \<Longrightarrow>
     length (steps c) = k \<and>
     (\<forall>i<k. \<exists>ci. visit R L w st rt i = Some ci \<and> records R ci (steps c ! i))"
proof (induction k arbitrary: c)
  case 0
  then show ?case by (auto simp: visit_def entry_def split: option.splits)
next
  case (Suc k)
  from Suc.prems obtain c0 where v0: "visit R L w st rt k = Some c0"
    and p: "pass R L w st rt c0 = Continue c"
    by (auto simp: visit_Suc split: option.splits body_exit.splits)
  from pass_Continue_records[OF p] obtain s where s: "steps c = steps c0 @ [s]"
    and r: "records R c0 s" by blast
  from Suc.IH[OF v0] have len: "length (steps c0) = k"
    and old: "\<forall>i<k. \<exists>ci. visit R L w st rt i = Some ci \<and> records R ci (steps c0 ! i)"
    by simp_all
  have "\<exists>ci. visit R L w st rt i = Some ci \<and> records R ci (steps c ! i)" if "i < Suc k" for i
  proof (cases "i < k")
    case True
    with old len s show ?thesis by (simp add: nth_append)
  next
    case False
    with that have "i = k" by simp
    with v0 r len s show ?thesis by (simp add: nth_append)
  qed
  with len s show ?case by simp
qed

lemma records_completes: "completes R \<Longrightarrow> records R c s \<Longrightarrow> Status s = ''completed''"
  unfolding completes_def records_def
  by (metis prod.collapse)

section \<open>Failures of a step and failures of the engine\<close>

text \<open>
  Claim C1. When the handler of a visited node returns an error, \<^verbatim>\<open>Execute\<close> returns
  results and no error: the overall status is \<^verbatim>\<open>failed\<close>; the trace holds one step for each
  node visited, in order; every step before the last has the status \<^verbatim>\<open>completed\<close>; the
  last step has the status \<^verbatim>\<open>error\<close>, carries the error text, and its output message is
  that text behind \<^verbatim>\<open>Error: \<close>; no further pass is made. The run is that of any registry
  whose handlers give their results the status \<^verbatim>\<open>completed\<close>, as every built-in handler does.
\<close>

theorem step_failure_is_data:
  assumes v: "visit R L w st rt k = Some c" and k: "k < maxSteps"
    and h: "R (Type (current c)) = Some h"
    and f: "h (current c) (state_of c) (tick (runtime_of c)) = (Failed e, st', rt')"
    and ok: "completes R"
  shows "\<exists>res rt''. Execute R L w st rt = (Returned res, st', rt'')
     \<and> x_Status res = ''failed''
     \<and> length (Steps res) = Suc k
     \<and> (\<forall>i<k. Status (Steps res ! i) = ''completed'' \<and> StepNumber (Steps res ! i) = Suc i
           \<and> (\<exists>ci. visit R L w st rt i = Some ci \<and> NodeID (Steps res ! i) = ID (current ci)))
     \<and> Status (Steps res ! k) = ''error''
     \<and> Error (Steps res ! k) = e
     \<and> Output (Steps res ! k) = [(''message'', OStr (''Error: '' @ e))]
     \<and> NodeID (Steps res ! k) = ID (current c)
     \<and> StepNumber (Steps res ! k) = Suc k
     \<and> (\<forall>j>k. visit R L w st rt j = None)"
proof -
  from loop_body_FailedD[where R=R and c=c and h=h and e=e and st'=st' and rt'=rt' and L=L
      and em="buildEdgeMap (Edges w)" and nm="buildNodeMap (Nodes w)" and ?t0.0="run_start st rt",
      OF h f]
  obtain res rt'' where
    b: "pass R L w st rt c = Return (Returned res, st', rt'')"
    and s: "x_Status res = ''failed''"
    and t: "Steps res = steps c @
          [\<lparr>StepNumber = Suc (stepNum c), NodeID = ID (current c), NodeType = Type (current c),
            s_Type = Type (current c), s_Label = Label (Data (current c)), Status = ''error'',
            Duration = Milliseconds (fst (time_Now rt') - fst (time_Now (runtime_of c))),
            Output = [(''message'', OStr (''Error: '' @ e))],
            Timestamp = time_Format L (fst (time_Now (tick rt'))), Error = e\<rparr>]"
    unfolding pass_def by blast
  have ex: "Execute R L w st rt = (Returned res, st', rt'')"
    by (rule Execute_Return[OF v k b])
  from visit_trace[OF v] have len: "length (steps c) = k"
    and tr: "\<forall>i<k. \<exists>ci. visit R L w st rt i = Some ci \<and> records R ci (steps c ! i)"
    by simp_all
  have n: "stepNum c = k" by (rule visit_stepNum[OF v])
  have before: "Status (Steps res ! i) = ''completed'' \<and> StepNumber (Steps res ! i) = Suc i
           \<and> (\<exists>ci. visit R L w st rt i = Some ci \<and> NodeID (Steps res ! i) = ID (current ci))"
    if "i < k" for i
  proof -
    from tr that obtain ci where vi: "visit R L w st rt i = Some ci"
      and ri: "records R ci (steps c ! i)" by blast
    have eq: "Steps res ! i = steps c ! i" using that len t by (simp add: nth_append)
    have "stepNum ci = i" by (rule visit_stepNum[OF vi])
    with ri records_completes[OF ok ri] vi eq show ?thesis
      by (auto simp: records_def)
  qed
  have after: "\<forall>j>k. visit R L w st rt j = None"
    using visit_stops[OF v] b by simp
  from ex s t len n before after show ?thesis
    by (simp add: nth_append)
qed


section \<open>Running the examples\<close>

lemma example_lib_sel:
  "strings_EqualFold example_lib s s' = (map ascii_lower s = map ascii_lower s')"
  "strings_TrimSpace example_lib s = rev (dropWhile ascii_space (rev (dropWhile ascii_space s)))"
  "fmt_q example_lib s = [CHR 0x22] @ s @ [CHR 0x22]"
  "fmt_f1 example_lib = decimal1"
  "fmt_s_other example_lib v = ''%!s(?)''"
  "math_Round example_lib x = of_int (round x)"
  "f_mul example_lib x y = x * y"
  "f_div example_lib x y = x / y"
  "f_gt example_lib x y = (x > y)"
  "f_lt example_lib x y = (x < y)"
  "f_eq example_lib x y = (x = y)"
  "f_ge example_lib x y = (x \<ge> y)"
  "f_le example_lib x y = (x \<le> y)"
  "f_of_int example_lib = of_int"
  "time_Format example_lib n = digits (nat n)"
  by (simp_all add: example_lib_def)

lemma test_cells_at:
  "test_cells 11 = [''name'' \<mapsto> AStr ''Alice'', ''email'' \<mapsto> AStr ''alice@example.com'',
            ''city'' \<mapsto> AStr ''Sydney'']"
  "test_cells 12 = [''apiEndpoint'' \<mapsto> AStr ''https://api.open-meteo.com/v1/forecast'',
            ''options'' \<mapsto> ASlice [AMap (Some 13)]]"
  "test_cells 13 = [''city'' \<mapsto> AStr ''Sydney'', ''lat'' \<mapsto> AFloat64 (- 338688 / 10000),
            ''lon'' \<mapsto> AFloat64 (1512093 / 10000)]"
  "test_cells 14 = [''emailTemplate'' \<mapsto> AMap (Some 15)]"
  "test_cells 15 = [''subject'' \<mapsto> AStr ''Weather Alert'',
            ''body'' \<mapsto> AStr (''Alert for {{city}}! Temp: {{temperature}}'' @ degree @ ''C!'')]"
  "test_cells 16 = Map.empty"
  by (simp_all add: test_cells_def)

lemmas eval_defs = visit_def pass_def entry_def run_start_def init_Variables_def time_Now_def
  loop_body_def NewRegistry_def StartExecutor_def FormExecutor_def IntegrationExecutor_def
  ConditionExecutor_def EmailExecutor_def EndExecutor_def
  buildEdgeMap_def buildNodeMap_def nextNodeID_def map_get_def map_set_def
  testWorkflow_def test_state_def test_runtime_def test_cells_at mk_node_def mk_edge_def
  example_lib_sel mockWeatherClient_def fmt_s_def string_or_zero_def node_options_def tick_def
  Let_def split_def


lemma handlers_complete:
  "completes (NewRegistry L client)"
  unfolding completes_def NewRegistry_def
  by (auto simp: StartExecutor_def FormExecutor_def IntegrationExecutor_def
        ConditionExecutor_def EmailExecutor_def EndExecutor_def Let_def split_def
        split: if_splits option.splits coords.splits sum.splits)




theorem step_failure_is_data_witness:
  "\<exists>res rt''.
     Execute (NewRegistry example_lib (mockWeatherClient 0 (Some ''API timeout''))) example_lib
       testWorkflow test_state test_runtime = (Returned res, test_state, rt'')
     \<and> x_Status res = ''failed'' \<and> length (Steps res) = 3
     \<and> Status (Steps res ! 0) = ''completed'' \<and> Status (Steps res ! 1) = ''completed''
     \<and> Status (Steps res ! 2) = ''error''
     \<and> Error (Steps res ! 2) = ''weather API error: API timeout''
     \<and> Output (Steps res ! 2) = [(''message'', OStr ''Error: weather API error: API timeout'')]
     \<and> NodeID (Steps res ! 2) = ''weather-api''"
proof -
  let ?cl = "mockWeatherClient (0::rat) (Some ''API timeout'')"
  let ?R = "NewRegistry example_lib ?cl"
  have "\<exists>c. visit ?R example_lib testWorkflow test_state test_runtime (Suc (Suc 0)) = Some c
    \<and> current c = mk_node ''weather-api'' ''integration'' ''Weather API'' (Some 12)
    \<and> state_of c = test_state \<and> cells (runtime_of c) = test_cells"
    by (simp add: eval_defs ascii_space_def)
  then obtain c where v: "visit ?R example_lib testWorkflow test_state test_runtime (Suc (Suc 0)) = Some c"
    and cur: "current c = mk_node ''weather-api'' ''integration'' ''Weather API'' (Some 12)"
    and st: "state_of c = test_state" and cl: "cells (runtime_of c) = test_cells"
    by blast
  have k: "Suc (Suc 0) < maxSteps" by (simp add: maxSteps_def)
  have h: "?R (Type (current c)) = Some (IntegrationExecutor example_lib ?cl)"
    by (simp add: cur NewRegistry_def mk_node_def)
  have f: "IntegrationExecutor example_lib ?cl (current c) (state_of c) (tick (runtime_of c))
      = (Failed ''weather API error: API timeout'', test_state, tick (runtime_of c))"
    by (simp add: cur st cl IntegrationExecutor_def node_options_def map_get_def tick_def
          time_Now_def test_cells_at test_state_def mk_node_def string_or_zero_def
          example_lib_sel ascii_lower_def mockWeatherClient_def Let_def)
  from step_failure_is_data[OF v k h f handlers_complete]
  obtain res rt'' where
    e: "Execute ?R example_lib testWorkflow test_state test_runtime = (Returned res, test_state, rt'')"
    and s: "x_Status res = ''failed''" and l: "length (Steps res) = Suc (Suc (Suc 0))"
    and b: "\<forall>i<Suc (Suc 0). Status (Steps res ! i) = ''completed''
              \<and> StepNumber (Steps res ! i) = Suc i
              \<and> (\<exists>ci. visit ?R example_lib testWorkflow test_state test_runtime i = Some ci
                    \<and> NodeID (Steps res ! i) = ID (current ci))"
    and l1: "Status (Steps res ! Suc (Suc 0)) = ''error''"
    and l2: "Error (Steps res ! Suc (Suc 0)) = ''weather API error: API timeout''"
    and l3: "Output (Steps res ! Suc (Suc 0)) = [(''message'', OStr (''Error: '' @ ''weather API error: API timeout''))]"
    and l4: "NodeID (Steps res ! Suc (Suc 0)) = ID (current c)"
    by blast
  have b0: "Status (Steps res ! 0) = ''completed''" using b by simp
  have b1: "Status (Steps res ! 1) = ''completed''" using b by simp
  have two: "(2::nat) = Suc (Suc 0)" by simp
  show ?thesis
    using e s l b0 b1 l1 l2 l3 l4 unfolding two
    by (simp add: cur mk_node_def)
qed

section \<open>The handlers\<close>

lemma string_or_zero_cases:
  "string_or_zero v = (case v of Some (AStr s) \<Rightarrow> s | _ \<Rightarrow> [])"
  by (cases v rule: as_string.cases) (simp_all add: string_or_zero_def)

lemma evaluateCondition_unrecognized:
  "operator \<notin> recognized \<Longrightarrow> evaluateCondition L temperature operator threshold = False"
  by (simp add: evaluateCondition_def recognized_def Let_def)

text \<open>
  Claim C8. When the operator is none of the five, and the accumulator holds a temperature
  that is a number, the condition handler does not fail, whatever the temperature and the
  threshold: the condition evaluates to false, the token \<^verbatim>\<open>false\<close> is stored in the
  accumulator under \<^verbatim>\<open>conditionResult\<close>, and the result has the status \<^verbatim>\<open>completed\<close>.
\<close>

theorem unrecognized_operator_is_false:
  assumes op: "Operator (Condition st) \<notin> recognized"
    and t: "map_get rt (Variables st) ''temperature'' = Some v"
    and f: "toFloat64 L (Some v) = Some temperature"
  shows "evaluateCondition L temperature (Operator (Condition st)) (Threshold (Condition st)) = False
    \<and> (\<exists>sr a. Variables st = Some a
          \<and> ConditionExecutor L node st rt =
              (Returned sr, st,
               rt\<lparr>cells := (cells rt)(a := (cells rt a)(''conditionResult'' \<mapsto> AStr ''false''))\<rparr>)
          \<and> r_Status sr = ''completed'' \<and> r_Error sr = []
          \<and> map_of (r_Output sr) ''conditionMet'' = Some (OBool False))"
proof -
  from t obtain a where a: "Variables st = Some a"
    by (cases "Variables st") (simp_all add: map_get_def)
  have e: "evaluateCondition L temperature (Operator (Condition st)) (Threshold (Condition st)) = False"
    by (rule evaluateCondition_unrecognized[OF op])
  show ?thesis
    using t f a e by (simp add: ConditionExecutor_def map_set_def Let_def)
qed

theorem unrecognized_operator_is_false_witness:
  "evaluateCondition example_lib 30 ''approximately'' 25 = False
   \<and> (\<exists>sr. ConditionExecutor example_lib (mk_node ''cond'' ''condition'' ''Check'' None)
              (condition_state ''approximately'' 25) (condition_runtime 30) =
              (Returned sr, condition_state ''approximately'' 25,
               (condition_runtime 30)\<lparr>cells := (cells (condition_runtime 30))
                  (16 := (cells (condition_runtime 30) 16)(''conditionResult'' \<mapsto> AStr ''false''))\<rparr>)
          \<and> r_Status sr = ''completed'')"
proof -
  let ?st = "condition_state ''approximately'' 25"
  have op: "Operator (Condition ?st) \<notin> recognized"
    by (simp add: condition_state_def recognized_def)
  have t: "map_get (condition_runtime 30) (Variables ?st) ''temperature'' = Some (AFloat64 30)"
    by (simp add: map_get_def condition_state_def condition_runtime_def)
  have f: "toFloat64 example_lib (Some (AFloat64 30)) = Some (30::rat)" by simp
  from unrecognized_operator_is_false[OF op t f, where node="mk_node ''cond'' ''condition'' ''Check'' None"]
  show ?thesis by (auto simp: condition_state_def)
qed

text \<open>
  Claim C10. For every node and every state, the email handler returns a result with the
  status \<^verbatim>\<open>completed\<close> and no error; it leaves the state and the maps as they are. The
  template is filled with the form values, the empty string standing for a value that is
  missing or not a string, and with the temperature, \<^verbatim>\<open>0.0\<close> standing for a temperature
  that is missing or not a \<^verbatim>\<open>float64\<close>; a template that is missing or malformed reads as
  the empty string. (\<^verbatim>\<open>%.1f\<close> prints the zero of \<^verbatim>\<open>float64\<close> as \<^verbatim>\<open>0.0\<close>: the hypothesis.)
\<close>

theorem email_handler_never_fails:
  assumes z: "fmt_f1 L (f_of_int L 0) = ''0.0''"
  shows "\<exists>sr rt' subject body stamp.
     EmailExecutor L node st rt = (Returned sr, st, rt')
     \<and> cells rt' = cells rt
     \<and> r_Status sr = ''completed'' \<and> r_Error sr = []
     \<and> subject = Replace [(''{{name}}'', form_text rt st ''name''),
                          (''{{city}}'', form_text rt st ''city''),
                          (''{{temperature}}'', temperature_text L rt st)]
                   (template_text rt node ''subject'')
     \<and> body = Replace [(''{{name}}'', form_text rt st ''name''),
                       (''{{city}}'', form_text rt st ''city''),
                       (''{{temperature}}'', temperature_text L rt st)]
                (template_text rt node ''body'')
     \<and> r_Output sr =
          [(''message'', OStr (''Weather alert email drafted for '' @ form_text rt st ''email'')),
           (''emailDraft'',
            OObj [(''to'', OStr (form_text rt st ''email'')),
                  (''from'', OStr ''weather-alerts@example.com''),
                  (''subject'', OStr subject), (''body'', OStr body),
                  (''timestamp'', OStr stamp)]),
           (''emailContent'',
            OObj [(''to'', OStr (form_text rt st ''email'')), (''subject'', OStr subject),
                  (''body'', OStr body)]),
           (''emailSent'', OBool True)]"
proof -
  have ft: "string_or_zero (map_get rt (FormData st) k) = form_text rt st k" for k
    by (simp add: string_or_zero_cases form_text_def)
  have tt: "fmt_f1 L (case as_float64 (map_get rt (Variables st) ''temperature'') of
               Some x \<Rightarrow> x | None \<Rightarrow> f_of_int L 0) = temperature_text L rt st"
    by (cases "map_get rt (Variables st) ''temperature''" rule: as_float64.cases)
       (simp_all add: temperature_text_def z)
  have tp: "string_or_zero
              (map_get rt (case as_map (map_get rt (Metadata (Data node)) ''emailTemplate'') of
                             Some m \<Rightarrow> m | None \<Rightarrow> None) k) = template_text rt node k" for k
    by (cases "map_get rt (Metadata (Data node)) ''emailTemplate''" rule: as_map.cases)
       (simp_all add: template_text_def string_or_zero_cases map_get_def)
  show ?thesis
    unfolding EmailExecutor_def Let_def split_def ft tt tp
    by (simp add: time_Now_def)
qed

lemma decimal1_0: "fmt_f1 example_lib (f_of_int example_lib 0) = ''0.0''"
  by (simp add: example_lib_sel decimal1_def)

theorem email_handler_never_fails_witness:
  "\<exists>sr rt'. EmailExecutor example_lib (mk_node ''email'' ''email'' ''Send Alert'' (Some 14))
               empty_state test_runtime = (Returned sr, empty_state, rt')
     \<and> r_Status sr = ''completed''
     \<and> map_of (r_Output sr) ''emailContent'' =
         Some (OObj [(''to'', OStr []), (''subject'', OStr ''Weather Alert''),
                     (''body'', OStr (''Alert for ! Temp: 0.0'' @ degree @ ''C!''))])"
proof -
  let ?n = "mk_node ''email'' ''email'' ''Send Alert'' (Some 14)"
  have a: "form_text test_runtime empty_state k = []" for k
    by (simp add: form_text_def empty_state_def map_get_def)
  have b: "temperature_text example_lib test_runtime empty_state = ''0.0''"
    by (simp add: temperature_text_def empty_state_def map_get_def test_runtime_def test_cells_at)
  have c: "template_text test_runtime ?n ''subject'' = ''Weather Alert''"
    "template_text test_runtime ?n ''body'' = ''Alert for {{city}}! Temp: {{temperature}}'' @ degree @ ''C!''"
    by (simp_all add: template_text_def mk_node_def map_get_def test_runtime_def test_cells_at)
  have d: "Replace [(''{{name}}'', []), (''{{city}}'', []), (''{{temperature}}'', ''0.0'')]
             ''Weather Alert'' = ''Weather Alert''"
    by simp
  have e: "Replace [(''{{name}}'', []), (''{{city}}'', []), (''{{temperature}}'', ''0.0'')]
             (''Alert for {{city}}! Temp: {{temperature}}'' @ degree @ ''C!'')
           = ''Alert for ! Temp: 0.0'' @ degree @ ''C!''"
    by (simp add: degree_def)
  from email_handler_never_fails[OF decimal1_0, where node="?n" and st=empty_state and rt=test_runtime]
  show ?thesis unfolding a b c d e by auto
qed

lemma find_coords_matching:
  "find_coords L rt city opts =
     (case matching_option L rt city opts of
        None \<Rightarrow> NotFound
      | Some m \<Rightarrow>
          (case toFloat64 L (map_get rt m ''lat'') of
             None \<Rightarrow> InvalidCoordinates
           | Some lat \<Rightarrow>
               (case toFloat64 L (map_get rt m ''lon'') of
                  None \<Rightarrow> InvalidCoordinates
                | Some lon \<Rightarrow> Found lat lon)))"
proof (induction opts)
  case Nil
  then show ?case by (simp add: matching_option_def)
next
  case (Cons opt opts)
  show ?case
  proof (cases opt)
    case (AMap m)
    with Cons show ?thesis
      by (simp add: matching_option_def is_match_def)
  qed (use Cons in \<open>simp_all add: matching_option_def is_match_def\<close>)
qed

text \<open>
  Claim C7, as it holds: for every node and every state whose accumulator is not nil (the
  engine makes it so before it calls a handler), the integration handler looks for the
  first entry of the options of the node that is a map and whose city matches the city of
  the form under \<^verbatim>\<open>strings.EqualFold\<close>. With no such entry it fails (city not found); with
  an entry whose \<^verbatim>\<open>lat\<close> or \<^verbatim>\<open>lon\<close> is not a number it fails (invalid coordinates);
  otherwise it calls the lookup with that latitude and longitude, fails with the wrapped
  error of the lookup, or stores the temperature in the accumulator under \<^verbatim>\<open>temperature\<close>
  and returns a result with the status \<^verbatim>\<open>completed\<close>.
\<close>

theorem integration_handler_with_accumulator:
  assumes acc: "Variables st = Some a"
  shows "case matching_option L rt (form_text rt st ''city'') (node_options rt node) of
       None \<Rightarrow>
         IntegrationExecutor L client node st rt =
           (Failed (''city '' @ fmt_q L (form_text rt st ''city'')
                    @ '' not found in available options''), st, rt)
     | Some m \<Rightarrow>
         (case (toFloat64 L (map_get rt m ''lat''), toFloat64 L (map_get rt m ''lon'')) of
            (Some lat, Some lon) \<Rightarrow>
              (case client lat lon of
                 Inl err \<Rightarrow>
                   IntegrationExecutor L client node st rt =
                     (Failed (''weather API error: '' @ err), st, rt)
               | Inr temperature \<Rightarrow>
                   (\<exists>sr. IntegrationExecutor L client node st rt =
                      (Returned sr, st,
                       rt\<lparr>cells := (cells rt)(a := (cells rt a)(''temperature'' \<mapsto> AFloat64 temperature))\<rparr>)
                      \<and> r_Status sr = ''completed''
                      \<and> map_of (r_Output sr) ''temperature'' = Some (OFloat temperature)))
          | _ \<Rightarrow>
              IntegrationExecutor L client node st rt =
                (Failed (''invalid coordinates for city '' @ fmt_q L (form_text rt st ''city'')),
                 st, rt))"
proof -
  have ft: "string_or_zero (map_get rt (FormData st) ''city'') = form_text rt st ''city''"
    by (simp add: string_or_zero_cases form_text_def)
  show ?thesis
    unfolding IntegrationExecutor_def Let_def ft find_coords_matching
    by (simp add: acc map_set_def split: option.splits sum.splits)
qed

theorem integration_handler_with_accumulator_witness:
  "\<exists>sr. IntegrationExecutor example_lib (mockWeatherClient (57 / 2) None)
          (mk_node ''weather-api'' ''integration'' ''Weather API'' (Some 12))
          test_state test_runtime =
        (Returned sr, test_state,
         test_runtime\<lparr>cells := (cells test_runtime)
            (16 := (cells test_runtime 16)(''temperature'' \<mapsto> AFloat64 (57 / 2)))\<rparr>)
      \<and> r_Status sr = ''completed''"
proof -
  let ?n = "mk_node ''weather-api'' ''integration'' ''Weather API'' (Some 12)"
  have acc: "Variables test_state = Some 16" by (simp add: test_state_def)
  have c: "form_text test_runtime test_state ''city'' = ''Sydney''"
    by (simp add: form_text_def test_state_def map_get_def test_runtime_def test_cells_at)
  have o: "node_options test_runtime ?n = [AMap (Some 13)]"
    by (simp add: node_options_def mk_node_def map_get_def test_runtime_def test_cells_at)
  have m: "matching_option example_lib test_runtime ''Sydney'' [AMap (Some 13)] = Some (Some 13)"
    by (simp add: matching_option_def is_match_def map_get_def test_runtime_def test_cells_at
          string_or_zero_def example_lib_sel)
  have l: "toFloat64 example_lib (map_get test_runtime (Some 13) ''lat'') = Some (- 338688 / 10000)"
    "toFloat64 example_lib (map_get test_runtime (Some 13) ''lon'') = Some (1512093 / 10000)"
    by (simp_all add: map_get_def test_runtime_def test_cells_at)
  from integration_handler_with_accumulator[OF acc, where L=example_lib and rt=test_runtime
      and node="?n" and client="mockWeatherClient (57 / 2) None"]
  show ?thesis by (auto simp: c o m l mockWeatherClient_def)
qed

text \<open>
  Claim C7 as it is stated, for every state, fails at a state whose accumulator is nil:
  the city is found, the lookup succeeds, and the write
  \<^verbatim>\<open>state.Variables["temperature"] = temperature\<close> panics; nothing is stored and no
  result is returned.
\<close>

theorem integration_handler_nil_accumulator:
  "fst (IntegrationExecutor example_lib (mockWeatherClient 30 None)
          (mk_node ''weather-api'' ''integration'' ''Weather API'' (Some 12))
          (test_state\<lparr>Variables := None\<rparr>) test_runtime)
     = Panicked ''assignment to entry in nil map''"
  by (simp add: IntegrationExecutor_def node_options_def map_get_def map_set_def
        test_cells_at test_state_def test_runtime_def mk_node_def string_or_zero_def
        example_lib_sel ascii_lower_def mockWeatherClient_def Let_def)

section \<open>The step bound, the choice of the next node, and what a run writes\<close>

lemma chain_id_inj [simp]: "chain_id i = chain_id j \<longleftrightarrow> i = j"
  by (simp add: chain_id_def replicate_eq_replicate del: replicate.simps)

lemma chain_id_not_Nil [simp]: "chain_id i \<noteq> []"
  by (simp add: chain_id_def)

lemma buildEdgeMap_from_filter:
  "buildEdgeMap_from m edges s = m s @ filter (\<lambda>e. Source e = s) edges"
  by (induction edges arbitrary: m) auto

lemma buildEdgeMap_filter: "buildEdgeMap edges s = filter (\<lambda>e. Source e = s) edges"
  by (simp add: buildEdgeMap_def buildEdgeMap_from_filter)

lemma buildNodeMap_from_append:
  "buildNodeMap_from m (xs @ ys) = buildNodeMap_from (buildNodeMap_from m xs) ys"
  by (induction xs arbitrary: m) auto

lemma chain_nodeMap_from:
  "buildNodeMap_from m (map (chain_node n t) [0..<k]) (chain_id j) =
     (if j < k then Some (chain_node n t j) else m (chain_id j))"
  by (induction k) (auto simp: buildNodeMap_from_append chain_node_def mk_node_def)

lemma chain_nodeMap:
  "j < n \<Longrightarrow> buildNodeMap (Nodes (chainWorkflow n t es)) (chain_id j) = Some (chain_node n t j)"
  by (simp add: buildNodeMap_def chainWorkflow_def chain_nodeMap_from)

lemma chain_edges_filter:
  "filter (\<lambda>e. Source e = chain_id i) (map chain_edge [0..<k]) = (if i < k then [chain_edge i] else [])"
  by (induction k) (auto simp: chain_edge_def mk_edge_def)

lemma chain_edgeMap:
  "buildEdgeMap (Edges (chainWorkflow n t es)) (chain_id i) =
     (if i < n - 1 then [chain_edge i] else []) @ filter (\<lambda>e. Source e = chain_id i) es"
  by (simp add: buildEdgeMap_filter chainWorkflow_def chain_edges_filter)

lemma chain_findStart:
  "1 < n \<Longrightarrow> findStartNode (Nodes (chainWorkflow n t es)) = Some (chain_node n t 0)"
  by (simp add: chainWorkflow_def upt_conv_Cons chain_node_def mk_node_def)

lemma chain_step:
  assumes cur: "current c = chain_node n t i" and i: "Suc i < n"
  shows "\<exists>c'. loop_body (NewRegistry L client) L (buildEdgeMap (Edges (chainWorkflow n t es)))
            (buildNodeMap (Nodes (chainWorkflow n t es))) t0 c = Continue c'
       \<and> current c' = chain_node n t (Suc i) \<and> state_of c' = state_of c
       \<and> cells (runtime_of c') = cells (runtime_of c)"
proof -
  have ty: "Type (current c) = ''start'' \<or> Type (current c) = ''email''"
    and id: "ID (current c) = chain_id i"
    using cur i by (auto simp: chain_node_def mk_node_def)
  have em: "buildEdgeMap (Edges (chainWorkflow n t es)) (chain_id i)
      = chain_edge i # filter (\<lambda>e. Source e = chain_id i) es"
    using i by (simp add: chain_edgeMap)
  have nm: "buildNodeMap (Nodes (chainWorkflow n t es)) (chain_id (Suc i)) = Some (chain_node n t (Suc i))"
    using i by (simp add: chain_nodeMap)
  show ?thesis
    using ty
    by (auto simp: loop_body_def id em nm NewRegistry_def StartExecutor_def EmailExecutor_def
          time_Now_def nextNodeID_def chain_edge_def mk_edge_def Let_def split_def)
qed

lemma chain_passes:
  assumes "current c = chain_node n t i" and "i + k < n"
  shows "\<exists>c'. passes (NewRegistry L client) L (buildEdgeMap (Edges (chainWorkflow n t es)))
            (buildNodeMap (Nodes (chainWorkflow n t es))) t0 k c = Some c'
       \<and> current c' = chain_node n t (i + k) \<and> state_of c' = state_of c
       \<and> cells (runtime_of c') = cells (runtime_of c)"
  using assms
proof (induction k arbitrary: c i)
  case 0
  then show ?case by simp
next
  case (Suc k)
  from Suc.prems have "Suc i < n" by simp
  from chain_step[OF Suc.prems(1) this, of L client es t0]
  obtain c1 where b: "loop_body (NewRegistry L client) L (buildEdgeMap (Edges (chainWorkflow n t es)))
            (buildNodeMap (Nodes (chainWorkflow n t es))) t0 c = Continue c1"
    and c1: "current c1 = chain_node n t (Suc i)" "state_of c1 = state_of c"
      "cells (runtime_of c1) = cells (runtime_of c)" by blast
  from Suc.prems have "Suc i + k < n" by simp
  from Suc.IH[OF c1(1) this] b c1 show ?case by simp
qed

lemma chain_visit:
  assumes n: "1 < n" and k: "k < n"
  shows "\<exists>c. visit (NewRegistry L client) L (chainWorkflow n t es) st rt k = Some c
       \<and> current c = chain_node n t k
       \<and> state_of c = fst (init_Variables st rt)
       \<and> cells (runtime_of c) = cells (snd (init_Variables st rt))"
proof -
  let ?e = "entry st rt (chain_node n t 0)"
  have "current ?e = chain_node n t 0" by (simp add: entry_def)
  from chain_passes[OF this, of k L client es "run_start st rt"] k
  show ?thesis
    by (auto simp: visit_def chain_findStart[OF n] entry_def time_Now_def)
qed

lemma nextNodeID_condition:
  "Type cur = ''condition'' \<Longrightarrow>
   nextNodeID rt st cur edges =
     (case find (\<lambda>e. SourceHandle e = string_or_zero (map_get rt (Variables st) ''conditionResult''))
             edges of
        Some e \<Rightarrow> Target e
      | None \<Rightarrow> [])"
  by (induction edges) (auto simp: nextNodeID_def)

lemma nextNodeID_other:
  "Type cur \<noteq> ''condition'' \<Longrightarrow>
   nextNodeID rt st cur edges = (case edges of [] \<Rightarrow> [] | e # _ \<Rightarrow> Target e)"
  by (simp add: nextNodeID_def)

lemma Execute_completes_below_bound:
  assumes v: "visit R L w st rt k = Some c" and k: "Suc k < maxSteps"
    and h: "R (Type (current c)) = Some h"
    and r: "h (current c) (state_of c) (tick (runtime_of c)) = (Returned sr, st', rt')"
    and n: "nextNodeID (tick (tick rt')) st' (current c)
              (buildEdgeMap (Edges w) (ID (current c))) = []"
  shows "\<exists>res rt''. Execute R L w st rt = (Returned res, st', rt'')
           \<and> x_Status res = ''completed'' \<and> length (Steps res) = Suc k"
proof -
  have "\<exists>c'. pass R L w st rt c = Break c' \<and> state_of c' = st'
          \<and> length (steps c') = Suc (length (steps c))"
    using h r n by (simp add: pass_def loop_body_def tick_def split_def Let_def)
  then obtain c' where b: "pass R L w st rt c = Break c'" and s: "state_of c' = st'"
    and l: "length (steps c') = Suc (length (steps c))" by blast
  have k': "k < maxSteps" using k by simp
  from visit_trace[OF v] have "length (steps c) = k" by simp
  with Execute_Break[OF v k' b] k s l show ?thesis
    by (simp add: results_def split_def Let_def)
qed

text \<open>
  Claim C3, at the input where it fails. A chain of 100 nodes (a start node, 98 email nodes
  and an end node with no outgoing edge): the run reaches the last node in its pass 100, its handler
  succeeds and the loop is left by \<^verbatim>\<open>break\<close> (no next node) with 100 steps made; yet
  \<^verbatim>\<open>Execute\<close> returns the error of the step bound and no results, because the test
  \<^verbatim>\<open>stepNum >= maxSteps\<close> behind the loop does not tell the \<^verbatim>\<open>break\<close> from the bound.
\<close>

theorem hundredth_step_terminal_fails:
  "\<exists>c c'. visit (NewRegistry example_lib (mockWeatherClient 0 None)) example_lib
             (chainWorkflow 100 ''end'' []) empty_state test_runtime 99 = Some c
     \<and> pass (NewRegistry example_lib (mockWeatherClient 0 None)) example_lib
             (chainWorkflow 100 ''end'' []) empty_state test_runtime c = Break c'
     \<and> stepNum c' = 100
     \<and> fst (Execute (NewRegistry example_lib (mockWeatherClient 0 None)) example_lib
             (chainWorkflow 100 ''end'' []) empty_state test_runtime)
        = Failed ''execution exceeded maximum of 100 steps (possible cycle)''"
proof -
  let ?R = "NewRegistry example_lib (mockWeatherClient (0::rat) None)"
  let ?W = "chainWorkflow 100 ''end'' []"
  from chain_visit[of 100 99 example_lib "mockWeatherClient 0 None" "''end''" "[]" empty_state test_runtime]
  obtain c where v: "visit ?R example_lib ?W empty_state test_runtime 99 = Some c"
    and cur: "current c = chain_node 100 ''end'' 99" by auto
  have ty: "Type (current c) = ''end''" "ID (current c) = chain_id 99"
    by (simp_all add: cur chain_node_def mk_node_def)
  have "\<exists>c'. pass ?R example_lib ?W empty_state test_runtime c = Break c'"
    by (simp add: pass_def loop_body_def ty chain_edgeMap NewRegistry_def EndExecutor_def
          time_Now_def nextNodeID_def Let_def)
  then obtain c' where b: "pass ?R example_lib ?W empty_state test_runtime c = Break c'" by blast
  have k: "99 < maxSteps" by (simp add: maxSteps_def)
  have n: "stepNum c' = 100"
    using loop_body_Break_stepNum[OF b[unfolded pass_def]] visit_stepNum[OF v] by simp
  from Execute_Break[OF v k b] v b n show ?thesis
    by (simp add: maxSteps_def)
qed

text \<open>
  Claim C5, at the input where it fails. A chain of 100 nodes (a start node, 98 email nodes)
  whose last node is a condition node with one outgoing edge, of handle \<^verbatim>\<open>maybe\<close>: in pass 100 the condition
  handler succeeds and stores the token \<^verbatim>\<open>true\<close>, no edge has that handle, and the loop is
  left as at a terminal node; yet \<^verbatim>\<open>Execute\<close> returns the error of the step bound, not
  results of status \<^verbatim>\<open>completed\<close>. Below the bound the run does complete
  (\<open>Execute_completes_below_bound\<close>), and the choice of the edge is as the claim says
  (\<open>nextNodeID_condition\<close>, \<open>nextNodeID_other\<close>).
\<close>

theorem hundredth_step_no_matching_edge_fails:
  "\<exists>c c'. visit (NewRegistry example_lib (mockWeatherClient 0 None)) example_lib
             (chainWorkflow 100 ''condition'' [mk_edge ''ex'' (chain_id 99) (chain_id 0) ''maybe''])
             (condition_state ''greater_than'' 25) (condition_runtime 30) 99 = Some c
     \<and> Type (current c) = ''condition''
     \<and> pass (NewRegistry example_lib (mockWeatherClient 0 None)) example_lib
             (chainWorkflow 100 ''condition'' [mk_edge ''ex'' (chain_id 99) (chain_id 0) ''maybe''])
             (condition_state ''greater_than'' 25) (condition_runtime 30) c = Break c'
     \<and> map_get (runtime_of c') (Variables (state_of c')) ''conditionResult'' = Some (AStr ''true'')
     \<and> Status (last (steps c')) = ''completed''
     \<and> fst (Execute (NewRegistry example_lib (mockWeatherClient 0 None)) example_lib
             (chainWorkflow 100 ''condition'' [mk_edge ''ex'' (chain_id 99) (chain_id 0) ''maybe''])
             (condition_state ''greater_than'' 25) (condition_runtime 30))
        = Failed ''execution exceeded maximum of 100 steps (possible cycle)''"
proof -
  let ?R = "NewRegistry example_lib (mockWeatherClient (0::rat) None)"
  let ?es = "[mk_edge ''ex'' (chain_id 99) (chain_id 0) ''maybe'']"
  let ?W = "chainWorkflow 100 ''condition'' ?es"
  let ?st = "condition_state ''greater_than'' 25"
  let ?rt = "condition_runtime 30"
  have iv: "init_Variables ?st ?rt = (?st, ?rt)"
    by (simp add: init_Variables_def condition_state_def)
  from chain_visit[of 100 99 example_lib "mockWeatherClient 0 None" "''condition''" ?es ?st ?rt]
  obtain c where v: "visit ?R example_lib ?W ?st ?rt 99 = Some c"
    and cur: "current c = chain_node 100 ''condition'' 99"
    and st: "state_of c = ?st" and cl: "cells (runtime_of c) = cells ?rt"
    by (auto simp: iv)
  have ty: "Type (current c) = ''condition''" "ID (current c) = chain_id 99"
    by (simp_all add: cur chain_node_def mk_node_def)
  have t: "cells (runtime_of c) 16 ''temperature'' = Some (AFloat64 30)"
    by (simp add: cl condition_runtime_def)
  have ev: "evaluateCondition example_lib 30 ''greater_than'' 25"
    by (simp add: evaluateCondition_def example_lib_sel)
  have "\<exists>c'. pass ?R example_lib ?W ?st ?rt c = Break c'
     \<and> map_get (runtime_of c') (Variables (state_of c')) ''conditionResult'' = Some (AStr ''true'')
     \<and> Status (last (steps c')) = ''completed''"
    by (simp add: pass_def loop_body_def ty st t ev chain_edgeMap NewRegistry_def
          ConditionExecutor_def condition_state_def map_get_def map_set_def
          time_Now_def nextNodeID_def string_or_zero_def mk_edge_def Let_def)
  then obtain c' where b: "pass ?R example_lib ?W ?st ?rt c = Break c'"
    and tok: "map_get (runtime_of c') (Variables (state_of c')) ''conditionResult'' = Some (AStr ''true'')"
    and comp: "Status (last (steps c')) = ''completed''"
    by blast
  have k: "99 < maxSteps" by (simp add: maxSteps_def)
  from Execute_Break[OF v k b] v b ty tok comp show ?thesis
    by (simp add: maxSteps_def)
qed

lemma NewRegistry_SomeD:
  "NewRegistry L client ty = Some h \<Longrightarrow>
     h = StartExecutor \<or> h = FormExecutor L \<or> h = IntegrationExecutor L client
     \<or> h = ConditionExecutor L \<or> h = EmailExecutor L \<or> h = EndExecutor"
  by (auto simp: NewRegistry_def split: if_splits)

lemma only_accumulator_written_refl [simp]: "only_accumulator_written st rt rt"
  by (simp add: only_accumulator_written_def)

lemma same_sources_refl [simp]: "same_sources rt rt"
  by (simp add: same_sources_def)

lemma only_accumulator_written_trans:
  "only_accumulator_written st rt rt' \<Longrightarrow> only_accumulator_written st rt' rt''
   \<Longrightarrow> only_accumulator_written st rt rt''"
  by (simp add: only_accumulator_written_def)

lemma same_sources_trans:
  "same_sources rt rt' \<Longrightarrow> same_sources rt' rt'' \<Longrightarrow> same_sources rt rt''"
  by (simp add: same_sources_def)

lemma tick_effect [simp]:
  "only_accumulator_written st rt (tick rt)" "same_sources rt (tick rt)"
  "cells (tick rt) = cells rt"
  by (simp_all add: tick_def time_Now_def only_accumulator_written_def same_sources_def)

lemma map_set_effect:
  "map_set rt (Variables st) k v = Some rt' \<Longrightarrow>
     only_accumulator_written st rt rt' \<and> same_sources rt rt'"
  by (auto simp: map_set_def only_accumulator_written_def same_sources_def split: option.splits)

lemma Start_effect:
  "StartExecutor node st rt = (out, st', rt') \<Longrightarrow>
     st' = st \<and> only_accumulator_written st rt rt' \<and> same_sources rt rt'"
  by (auto simp: StartExecutor_def)

lemma End_effect:
  "EndExecutor node st rt = (out, st', rt') \<Longrightarrow>
     st' = st \<and> only_accumulator_written st rt rt' \<and> same_sources rt rt'"
  by (auto simp: EndExecutor_def)

lemma Form_effect:
  "FormExecutor L node st rt = (out, st', rt') \<Longrightarrow>
     st' = st \<and> only_accumulator_written st rt rt' \<and> same_sources rt rt'"
  by (auto simp: FormExecutor_def split: option.splits)

lemma Integration_effect:
  "IntegrationExecutor L client node st rt = (out, st', rt') \<Longrightarrow>
     st' = st \<and> only_accumulator_written st rt rt' \<and> same_sources rt rt'"
  by (auto simp: IntegrationExecutor_def Let_def dest: map_set_effect
           split: coords.splits sum.splits option.splits)

lemma Condition_effect:
  "ConditionExecutor L node st rt = (out, st', rt') \<Longrightarrow>
     st' = st \<and> only_accumulator_written st rt rt' \<and> same_sources rt rt'"
  by (auto simp: ConditionExecutor_def Let_def dest: map_set_effect split: option.splits)

lemma Email_effect:
  "EmailExecutor L node st rt = (out, st', rt') \<Longrightarrow>
     st' = st \<and> only_accumulator_written st rt rt' \<and> same_sources rt rt'"
  by (auto simp: EmailExecutor_def Let_def split_def time_Now_def only_accumulator_written_def
        same_sources_def)

lemma handler_effect:
  assumes "NewRegistry L client ty = Some h" and "h node st rt = (out, st', rt')"
  shows "st' = st \<and> only_accumulator_written st rt rt' \<and> same_sources rt rt'"
  using NewRegistry_SomeD[OF assms(1)] assms(2)
    Start_effect Form_effect Integration_effect Condition_effect Email_effect End_effect
  by metis

lemma NewRegistry_quiet: "quiet (NewRegistry L client)"
  unfolding quiet_def using handler_effect by blast

lemma quietD:
  "quiet R \<Longrightarrow> R ty = Some h \<Longrightarrow> h node st rt = (out, st', rt') \<Longrightarrow>
     st' = st \<and> only_accumulator_written st rt rt' \<and> same_sources rt rt'"
  unfolding quiet_def by blast

text \<open>The effect of returning results: one more reading of the clock, one identifier drawn.\<close>

lemma results_effect:
  "results L status t0 ss st rt = (out, st', rt') \<Longrightarrow>
     st' = st \<and> cells rt' = cells rt \<and> next_addr rt' = next_addr rt
     \<and> (\<exists>res. out = Returned res \<and> ExecutionID res = uuids rt (drawn rt)
            \<and> x_Status res = status \<and> Steps res = ss)"
  by (auto simp: results_def time_Now_def uuid_New_def split_def Let_def)

lemma loop_body_effect:
  assumes q: "quiet R"
  shows "case loop_body R L em nm t0 c of
           Return r \<Rightarrow> run_effect (state_of c) (runtime_of c) r
         | Break c' \<Rightarrow> state_effect c c'
         | Continue c' \<Rightarrow> state_effect c c'"
proof (cases "R (Type (current c))")
  case None
  then show ?thesis by (simp add: loop_body_def run_effect_def)
next
  case (Some h)
  obtain out st' rt2 where r: "h (current c) (state_of c) (tick (runtime_of c)) = (out, st', rt2)"
    by (cases "h (current c) (state_of c) (tick (runtime_of c))") auto
  from quietD[OF q Some r] have st: "st' = state_of c"
    and w: "only_accumulator_written (state_of c) (tick (runtime_of c)) rt2"
    and s: "same_sources (tick (runtime_of c)) rt2" by simp_all
  from w have w': "only_accumulator_written (state_of c) (runtime_of c) rt2"
    by (simp add: only_accumulator_written_def)
  from s have s': "same_sources (runtime_of c) rt2"
    by (simp add: same_sources_def tick_def time_Now_def)
  show ?thesis
    using Some r[unfolded tick_def] st w' s'
    by (cases out)
       (auto simp: loop_body_def run_effect_def state_effect_def results_def time_Now_def
          uuid_New_def split_def Let_def only_accumulator_written_def same_sources_def
          split: option.splits)
qed

lemma run_effect_step:
  "state_effect c c' \<Longrightarrow> run_effect (state_of c') (runtime_of c') r
   \<Longrightarrow> run_effect (state_of c) (runtime_of c) r"
  by (auto simp: state_effect_def run_effect_def only_accumulator_written_def same_sources_def
        split: go_result.splits)

lemma state_effect_trans: "state_effect c c' \<Longrightarrow> state_effect c' c'' \<Longrightarrow> state_effect c c''"
  by (auto simp: state_effect_def only_accumulator_written_def same_sources_def)

lemma run_loop_effect:
  "quiet R \<Longrightarrow>
   (case run_loop R L em nm t0 c of
      Inl r \<Rightarrow> run_effect (state_of c) (runtime_of c) r
    | Inr c' \<Rightarrow> state_effect c c')"
proof (induction R L em nm t0 c rule: run_loop.induct)
  case (1 registry L edgeMap nodeMap startTime c)
  note q = "1.prems"
  show ?case
  proof (cases "stepNum c < maxSteps")
    case False
    then show ?thesis
      by (simp add: run_loop_stop state_effect_def same_sources_def)
  next
    case True
    note b = loop_body_effect[OF q, where L=L and em=edgeMap and nm=nodeMap and ?t0.0=startTime and c=c]
    show ?thesis
    proof (cases "loop_body registry L edgeMap nodeMap startTime c")
      case (Return r)
      with b True show ?thesis by (simp add: run_loop_step)
    next
      case (Break c')
      with b True show ?thesis by (simp add: run_loop_step)
    next
      case (Continue c')
      with b have e: "state_effect c c'" by simp
      from "1.IH"[OF True Continue q]
      have "case run_loop registry L edgeMap nodeMap startTime c' of
              Inl r \<Rightarrow> run_effect (state_of c') (runtime_of c') r
            | Inr c'' \<Rightarrow> state_effect c' c''" .
      with e Continue True show ?thesis
        by (auto simp: run_loop_step split: sum.splits
              intro: run_effect_step state_effect_trans)
    qed
  qed
qed

lemma init_Variables_effect:
  "init_Variables st rt = (st1, rt1) \<Longrightarrow>
     FormData st1 = FormData st \<and> Condition st1 = Condition st
     \<and> Variables st1 = (case Variables st of None \<Rightarrow> Some (next_addr rt) | Some v \<Rightarrow> Some v)
     \<and> only_accumulator_written st1 rt rt1
     \<and> uuids rt1 = uuids rt \<and> drawn rt1 = drawn rt \<and> clock rt1 = clock rt \<and> ticks rt1 = ticks rt"
  by (auto simp: init_Variables_def make_map_def only_accumulator_written_def split: option.splits)

lemma Execute_effect:
  assumes q: "quiet R" and e: "Execute R L w st rt = (out, st', rt')"
  shows "FormData st' = FormData st \<and> Condition st' = Condition st
     \<and> Variables st' = (case Variables st of None \<Rightarrow> Some (next_addr rt) | Some v \<Rightarrow> Some v)
     \<and> only_accumulator_written st' rt rt'
     \<and> (\<forall>res. out = Returned res \<longrightarrow> ExecutionID res = uuids rt (drawn rt))"
proof -
  obtain st1 rt1 where i: "init_Variables st rt = (st1, rt1)"
    by (cases "init_Variables st rt") auto
  note ie = init_Variables_effect[OF i]
  let ?rt2 = "tick rt1"
  have w2: "only_accumulator_written st1 rt ?rt2"
    using ie by (simp add: only_accumulator_written_def)
  have u2: "uuids ?rt2 = uuids rt" "drawn ?rt2 = drawn rt"
    using ie by (simp_all add: tick_def time_Now_def)
  have goal: "st' = st1 \<and> only_accumulator_written st1 rt rt'
     \<and> (\<forall>res. out = Returned res \<longrightarrow> ExecutionID res = uuids rt (drawn rt))"
  proof (cases "findStartNode (Nodes w)")
    case None
    with e i w2 show ?thesis
      by (auto simp: Execute_def split_def Let_def tick_def)
  next
    case (Some start)
    let ?c = "\<lparr>current = start, stepNum = 0, steps = [], state_of = st1, runtime_of = ?rt2\<rparr>"
    let ?t0 = "fst (time_Now rt1)"
    note l = run_loop_effect[OF q, where L=L and em="buildEdgeMap (Edges w)"
        and nm="buildNodeMap (Nodes w)" and ?t0.0="?t0" and c="?c"]
    show ?thesis
    proof (cases "run_loop R L (buildEdgeMap (Edges w)) (buildNodeMap (Nodes w)) ?t0 ?c")
      case (Inl r)
      with l have "run_effect st1 ?rt2 r" by simp
      moreover from e i Some Inl have "r = (out, st', rt')"
        by (simp add: Execute_def split_def Let_def tick_def)
      ultimately show ?thesis
        using w2 u2
        by (auto simp: run_effect_def only_accumulator_written_def split: go_result.splits)
    next
      case (Inr c')
      with l have se: "state_effect ?c c'" by simp
      then have a: "state_of c' = st1"
        and b: "only_accumulator_written st1 rt (runtime_of c')"
        and c: "uuids (runtime_of c') = uuids rt" "drawn (runtime_of c') = drawn rt"
        using w2 u2
        by (auto simp: state_effect_def only_accumulator_written_def same_sources_def)
      show ?thesis
      proof (cases "stepNum c' \<ge> maxSteps")
        case True
        with e i Some Inr a b show ?thesis
          by (auto simp: Execute_def split_def Let_def tick_def)
      next
        case False
        with e i Some Inr
        have "results L ''completed'' ?t0 (steps c') (state_of c') (runtime_of c') = (out, st', rt')"
          by (simp add: Execute_def split_def Let_def tick_def)
        from results_effect[OF this] a b c show ?thesis
          by (auto simp: only_accumulator_written_def)
      qed
    qed
  qed
  with ie show ?thesis by simp
qed

text \<open>What a run does to the stores of the definitions and of the identifiers.\<close>

lemma results_sources:
  "results L status t0 ss st rt = (out, st', rt') \<Longrightarrow>
     workflows rt' = workflows rt \<and> uuids rt' = uuids rt \<and> drawn rt' = Suc (drawn rt)"
  by (auto simp: results_def time_Now_def uuid_New_def split_def Let_def)

lemma init_Variables_sources:
  "init_Variables st rt = (st1, rt1) \<Longrightarrow> workflows rt1 = workflows rt"
  by (auto simp: init_Variables_def make_map_def split: option.splits)

lemma Execute_sources:
  assumes q: "quiet R" and e: "Execute R L w st rt = (out, st', rt')"
  shows "workflows rt' = workflows rt \<and> uuids rt' = uuids rt
     \<and> (case out of Returned res \<Rightarrow> drawn rt' = Suc (drawn rt) | _ \<Rightarrow> drawn rt' = drawn rt)"
proof -
  obtain st1 rt1 where i: "init_Variables st rt = (st1, rt1)"
    by (cases "init_Variables st rt") auto
  note ie = init_Variables_effect[OF i] init_Variables_sources[OF i]
  let ?rt2 = "tick rt1"
  have u2: "uuids ?rt2 = uuids rt" "drawn ?rt2 = drawn rt" "workflows ?rt2 = workflows rt"
    using ie by (simp_all add: tick_def time_Now_def)
  show ?thesis
  proof (cases "findStartNode (Nodes w)")
    case None
    with e i u2 show ?thesis
      by (auto simp: Execute_def split_def Let_def tick_def)
  next
    case (Some start)
    let ?c = "\<lparr>current = start, stepNum = 0, steps = [], state_of = st1, runtime_of = ?rt2\<rparr>"
    let ?t0 = "fst (time_Now rt1)"
    note l = run_loop_effect[OF q, where L=L and em="buildEdgeMap (Edges w)"
        and nm="buildNodeMap (Nodes w)" and ?t0.0="?t0" and c="?c"]
    show ?thesis
    proof (cases "run_loop R L (buildEdgeMap (Edges w)) (buildNodeMap (Nodes w)) ?t0 ?c")
      case (Inl r)
      with l have "run_effect st1 ?rt2 r" by simp
      moreover from e i Some Inl have "r = (out, st', rt')"
        by (simp add: Execute_def split_def Let_def tick_def)
      ultimately show ?thesis
        using u2 by (auto simp: run_effect_def split: go_result.splits)
    next
      case (Inr c')
      with l have se: "state_effect ?c c'" by simp
      then have c: "uuids (runtime_of c') = uuids rt" "drawn (runtime_of c') = drawn rt"
        "workflows (runtime_of c') = workflows rt"
        using u2 by (auto simp: state_effect_def same_sources_def)
      show ?thesis
      proof (cases "stepNum c' \<ge> maxSteps")
        case True
        with e i Some Inr c show ?thesis
          by (auto simp: Execute_def split_def Let_def tick_def)
      next
        case False
        with e i Some Inr
        have r: "results L ''completed'' ?t0 (steps c') (state_of c') (runtime_of c') = (out, st', rt')"
          by (simp add: Execute_def split_def Let_def tick_def)
        from results_sources[OF r] results_effect[OF r] c show ?thesis by auto
      qed
    qed
  qed
qed





section \<open>Two runs of one definition and one input\<close>

lemma map_get_same: "same_store rt1 rt2 \<Longrightarrow> map_get rt1 m k = map_get rt2 m k"
  by (simp add: same_store_def map_get_def split: option.splits)

lemma same_store_refl [simp]: "same_store rt rt"
  by (simp add: same_store_def)

lemma same_store_tick [simp]:
  "same_store (snd (time_Now rt1)) rt2 = same_store rt1 rt2"
  "same_store rt1 (snd (time_Now rt2)) = same_store rt1 rt2"
  "same_store (snd (uuid_New rt1)) rt2 = same_store rt1 rt2"
  "same_store rt1 (snd (uuid_New rt2)) = same_store rt1 rt2"
  by (simp_all add: same_store_def time_Now_def uuid_New_def)

lemma map_set_same:
  assumes "same_store rt1 rt2"
  shows "(map_set rt1 m k v = None \<longleftrightarrow> map_set rt2 m k v = None)
    \<and> (\<forall>r1 r2. map_set rt1 m k v = Some r1 \<longrightarrow> map_set rt2 m k v = Some r2 \<longrightarrow> same_store r1 r2)"
  using assms by (auto simp: map_set_def same_store_def split: option.splits)

lemma form_fields_same:
  "same_store rt1 rt2 \<Longrightarrow> form_fields L rt1 fd fs = form_fields L rt2 fd fs"
  by (induction fs) (auto simp: map_get_same[of rt1 rt2] split: option.splits)

lemma find_coords_same:
  "same_store rt1 rt2 \<Longrightarrow> find_coords L rt1 city opts = find_coords L rt2 city opts"
  by (induction opts) (auto simp: map_get_same[of rt1 rt2] split: option.splits)

lemma node_options_same:
  "same_store rt1 rt2 \<Longrightarrow> node_options rt1 node = node_options rt2 node"
  by (simp add: node_options_def map_get_same[of rt1 rt2])

lemma nextNodeID_same:
  "same_store rt1 rt2 \<Longrightarrow> nextNodeID rt1 st cur es = nextNodeID rt2 st cur es"
  by (simp add: nextNodeID_def map_get_same[of rt1 rt2])

lemma Start_agree: "same_store rt1 rt2 \<Longrightarrow>
    handler_agree (StartExecutor node st rt1) (StartExecutor node st rt2)"
  by (simp add: handler_agree_def StartExecutor_def)

lemma End_agree: "same_store rt1 rt2 \<Longrightarrow>
    handler_agree (EndExecutor node st rt1) (EndExecutor node st rt2)"
  by (simp add: handler_agree_def EndExecutor_def)

lemma Form_agree: "same_store rt1 rt2 \<Longrightarrow>
    handler_agree (FormExecutor L node st rt1) (FormExecutor L node st rt2)"
  by (simp add: handler_agree_def FormExecutor_def form_fields_same[of rt1 rt2]
        map_get_same[of rt1 rt2] split: option.splits)

lemma Integration_agree:
  assumes s: "same_store rt1 rt2"
  shows "handler_agree (IntegrationExecutor L client node st rt1)
           (IntegrationExecutor L client node st rt2)"
  using s
  by (cases "Variables st")
     (auto simp: handler_agree_def IntegrationExecutor_def Let_def find_coords_same[OF s]
        node_options_same[OF s] map_get_same[OF s] map_set_def same_store_def
        split: coords.splits sum.splits)

lemma Condition_agree:
  assumes s: "same_store rt1 rt2"
  shows "handler_agree (ConditionExecutor L node st rt1) (ConditionExecutor L node st rt2)"
  using s
  by (cases "Variables st")
     (auto simp: handler_agree_def ConditionExecutor_def Let_def map_get_same[OF s]
        map_set_def same_store_def split: option.splits)

lemma Email_agree:
  assumes s: "same_store rt1 rt2"
  shows "handler_agree (EmailExecutor L node st rt1) (EmailExecutor L node st rt2)"
  using s
  by (simp add: handler_agree_def EmailExecutor_def Let_def split_def map_get_same[OF s]
        erase_result_def erase_bag_def blank_timestamp_def)

lemma NewRegistry_clock_blind: "clock_blind (NewRegistry L client)"
  unfolding clock_blind_def
  using Start_agree Form_agree Integration_agree Condition_agree Email_agree End_agree
  by (metis NewRegistry_SomeD)

lemma erase_result_ReturnedD:
  assumes "erase_result (Returned a) = erase_result r"
  shows "\<exists>b. r = Returned b \<and> r_Status a = r_Status b
           \<and> erase_bag (r_Output a) = erase_bag (r_Output b)"
proof (cases r)
  case (Returned b)
  with assms have e: "a\<lparr>r_Output := erase_bag (r_Output a)\<rparr> = b\<lparr>r_Output := erase_bag (r_Output b)\<rparr>"
    by (simp add: erase_result_def)
  from arg_cong[OF e, of r_Status] arg_cong[OF e, of r_Output] Returned show ?thesis by simp
qed (use assms in \<open>simp_all add: erase_result_def\<close>)

lemma erase_result_otherD:
  "erase_result (Panicked p) = erase_result r \<Longrightarrow> r = Panicked p"
  "erase_result (Failed e) = erase_result r \<Longrightarrow> r = Failed e"
  by (cases r; simp add: erase_result_def)+

lemma results_agree:
  assumes "map erase_step ss1 = map erase_step ss2" and "same_store rt1 rt2"
  shows "run_agree (results L status t1 ss1 st rt1) (results L status t2 ss2 st rt2)"
  using assms
  by (simp add: run_agree_def results_def split_def Let_def erase_run_def)

lemma loop_body_agree:
  assumes b: "clock_blind R" and a: "state_agree c1 c2"
  shows "exit_agree (loop_body R L em nm t1 c1) (loop_body R L em nm t2 c2)"
proof -
  from a have cur: "current c2 = current c1" and n: "stepNum c2 = stepNum c1"
    and ss: "map erase_step (steps c1) = map erase_step (steps c2)"
    and st: "state_of c2 = state_of c1"
    and s: "same_store (runtime_of c1) (runtime_of c2)"
    by (simp_all add: state_agree_def)
  show ?thesis
  proof (cases "R (Type (current c1))")
    case None
    with cur st s show ?thesis
      by (simp add: loop_body_def run_agree_def)
  next
    case (Some h)
    let ?r1 = "h (current c1) (state_of c1) (snd (time_Now (runtime_of c1)))"
    let ?r2 = "h (current c1) (state_of c1) (snd (time_Now (runtime_of c2)))"
    obtain o1 s1 u1 where r1: "?r1 = (o1, s1, u1)" by (cases ?r1) auto
    obtain o2 s2 u2 where r2: "?r2 = (o2, s2, u2)" by (cases ?r2) auto
    have "handler_agree ?r1 ?r2"
      using b Some s unfolding clock_blind_def by simp
    with r1 r2 have e: "erase_result o1 = erase_result o2" and s12: "s2 = s1"
      and u: "same_store u1 u2"
      by (simp_all add: handler_agree_def)
    show ?thesis
    proof (cases o1)
      case (Panicked p)
      with e have "o2 = Panicked p" by (simp add: erase_result_otherD)
      with Panicked Some cur st r1 r2 s12 u show ?thesis
        by (simp add: loop_body_def split_def run_agree_def)
    next
      case (Failed x)
      with e have "o2 = Failed x" by (simp add: erase_result_otherD)
      with Failed Some cur st n r1 r2 s12 u ss show ?thesis
        by (simp add: loop_body_def split_def Let_def results_agree erase_step_def erase_bag_def
              blank_timestamp_def)
    next
      case (Returned a)
      with e obtain b' where o2: "o2 = Returned b'" and sa: "r_Status a = r_Status b'"
        and oa: "erase_bag (r_Output a) = erase_bag (r_Output b')"
        using erase_result_ReturnedD by blast
      have nx: "nextNodeID (snd (time_Now (snd (time_Now u1)))) s1 (current c1) (em (ID (current c1)))
          = nextNodeID (snd (time_Now (snd (time_Now u2)))) s1 (current c1) (em (ID (current c1)))"
        by (rule nextNodeID_same) (simp add: u)
      from Returned o2 Some cur st n r1 r2 s12 u ss sa oa nx show ?thesis
        by (simp add: loop_body_def split_def Let_def run_agree_def state_agree_def
              erase_step_def split: option.splits)
    qed
  qed
qed

lemma run_loop_agree:
  "clock_blind R \<Longrightarrow> state_agree c1 c2 \<Longrightarrow>
   (case (run_loop R L em nm t1 c1, run_loop R L em nm t2 c2) of
      (Inl r1, Inl r2) \<Rightarrow> run_agree r1 r2
    | (Inr c1', Inr c2') \<Rightarrow> state_agree c1' c2'
    | _ \<Rightarrow> False)"
proof (induction R L em nm t1 c1 arbitrary: c2 rule: run_loop.induct)
  case (1 registry L edgeMap nodeMap startTime c)
  from "1.prems"(2) have n: "stepNum c2 = stepNum c" by (simp add: state_agree_def)
  show ?case
  proof (cases "stepNum c < maxSteps")
    case False
    with n "1.prems"(2) show ?thesis by (simp add: run_loop_stop)
  next
    case True
    with n have True2: "stepNum c2 < maxSteps" by simp
    note x = loop_body_agree[OF "1.prems", where L=L and em=edgeMap and nm=nodeMap
        and ?t1.0=startTime and ?t2.0=t2]
    show ?thesis
    proof (cases "loop_body registry L edgeMap nodeMap startTime c")
      case (Return r)
      with x obtain r' where "loop_body registry L edgeMap nodeMap t2 c2 = Return r'"
        and "run_agree r r'"
        by (cases "loop_body registry L edgeMap nodeMap t2 c2") auto
      with Return True True2 show ?thesis by (simp add: run_loop_step)
    next
      case (Break c')
      with x obtain c2' where "loop_body registry L edgeMap nodeMap t2 c2 = Break c2'"
        and "state_agree c' c2'"
        by (cases "loop_body registry L edgeMap nodeMap t2 c2") auto
      with Break True True2 show ?thesis by (simp add: run_loop_step)
    next
      case (Continue c')
      with x obtain c2' where b2: "loop_body registry L edgeMap nodeMap t2 c2 = Continue c2'"
        and a': "state_agree c' c2'"
        by (cases "loop_body registry L edgeMap nodeMap t2 c2") auto
      from "1.IH"[OF True Continue "1.prems"(1) a'] Continue b2 True True2
      show ?thesis by (simp add: run_loop_step)
    qed
  qed
qed

lemma init_Variables_agree:
  "same_store rt1 rt2 \<Longrightarrow>
     fst (init_Variables st rt1) = fst (init_Variables st rt2)
     \<and> same_store (snd (init_Variables st rt1)) (snd (init_Variables st rt2))"
  by (auto simp: init_Variables_def make_map_def same_store_def split: option.splits)

lemma Execute_agree:
  assumes b: "clock_blind R" and s: "same_store rt1 rt2"
  shows "run_agree (Execute R L w st rt1) (Execute R L w st rt2)"
proof -
  note i = init_Variables_agree[OF s, of st]
  let ?s1 = "fst (init_Variables st rt1)"
  let ?u1 = "snd (init_Variables st rt1)" let ?u2 = "snd (init_Variables st rt2)"
  show ?thesis
  proof (cases "findStartNode (Nodes w)")
    case None
    with i show ?thesis
      by (simp add: Execute_def split_def Let_def run_agree_def)
  next
    case (Some start)
    let ?c1 = "\<lparr>current = start, stepNum = 0, steps = [], state_of = ?s1,
                 runtime_of = snd (time_Now ?u1)\<rparr>"
    let ?c2 = "\<lparr>current = start, stepNum = 0, steps = [], state_of = ?s1,
                 runtime_of = snd (time_Now ?u2)\<rparr>"
    have a: "state_agree ?c1 ?c2" using i by (simp add: state_agree_def)
    note l = run_loop_agree[OF b a, where L=L and em="buildEdgeMap (Edges w)"
        and nm="buildNodeMap (Nodes w)" and ?t1.0="fst (time_Now ?u1)" and ?t2.0="fst (time_Now ?u2)"]
    show ?thesis
    proof (cases "run_loop R L (buildEdgeMap (Edges w)) (buildNodeMap (Nodes w))
                    (fst (time_Now ?u1)) ?c1")
      case (Inl r1)
      with l obtain r2 where "run_loop R L (buildEdgeMap (Edges w)) (buildNodeMap (Nodes w))
                    (fst (time_Now ?u2)) ?c2 = Inl r2" and "run_agree r1 r2"
        by (auto split: sum.splits)
      with Inl Some i show ?thesis
        by (simp add: Execute_def split_def Let_def)
    next
      case (Inr c1')
      with l obtain c2' where r2: "run_loop R L (buildEdgeMap (Edges w)) (buildNodeMap (Nodes w))
                    (fst (time_Now ?u2)) ?c2 = Inr c2'" and a': "state_agree c1' c2'"
        by (auto split: sum.splits)
      from a' have "stepNum c2' = stepNum c1'" "state_of c2' = state_of c1'"
        "map erase_step (steps c1') = map erase_step (steps c2')"
        "same_store (runtime_of c1') (runtime_of c2')"
        by (simp_all add: state_agree_def)
      with Inr r2 Some i show ?thesis
        by (simp add: Execute_def split_def Let_def results_agree)
           (simp add: run_agree_def)
    qed
  qed
qed

lemma erase_run_ReturnedD:
  assumes "erase_run (Returned r1) = erase_run o2"
  shows "\<exists>r2. o2 = Returned r2 \<and> x_Status r1 = x_Status r2
           \<and> map erase_step (Steps r1) = map erase_step (Steps r2)"
proof (cases o2)
  case (Returned r2)
  with assms have e:
    "r1\<lparr>ExecutionID := [], StartTime := [], EndTime := [], TotalDuration := 0,
        Steps := map erase_step (Steps r1)\<rparr>
     = r2\<lparr>ExecutionID := [], StartTime := [], EndTime := [], TotalDuration := 0,
        Steps := map erase_step (Steps r2)\<rparr>"
    by (simp add: erase_run_def)
  from arg_cong[OF e, of x_Status] arg_cong[OF e, of Steps] Returned show ?thesis by simp
qed (use assms in \<open>simp_all add: erase_run_def\<close>)

lemma erase_step_eqD:
  assumes e: "erase_step s1 = erase_step s2"
  shows "StepNumber s1 = StepNumber s2 \<and> NodeID s1 = NodeID s2 \<and> NodeType s1 = NodeType s2
     \<and> s_Type s1 = s_Type s2 \<and> s_Label s1 = s_Label s2 \<and> Status s1 = Status s2
     \<and> Error s1 = Error s2 \<and> erase_bag (Output s1) = erase_bag (Output s2)"
  using arg_cong[OF e, of StepNumber] arg_cong[OF e, of NodeID] arg_cong[OF e, of NodeType]
    arg_cong[OF e, of s_Type] arg_cong[OF e, of s_Label] arg_cong[OF e, of Status]
    arg_cong[OF e, of Error] arg_cong[OF e, of Output]
  by (simp add: erase_step_def)

text \<open>
  Claim C6. Two calls of \<^verbatim>\<open>Execute\<close> with the built-in registry over one lookup capability,
  on the same definition, the same state and the same maps, whatever the clocks and the
  identifier sources: both return an error, or both panic, or both return results, with
  the same text, the same final state and the same maps; the results have the same overall
  status and the same steps in the same order (step numbers, node ids, node types, labels,
  statuses, errors, and outputs up to timestamps). The run identifier of a call that
  returns results is the token the identifier source gives next, and the call consumes
  exactly that token: it leaves the source advanced by one. So when the source never
  repeats a token and the second call is made after the first returned, the two run
  identifiers differ.
\<close>

theorem successive_runs_agree:
  assumes s: "same_store rt1 rt2"
  shows "run_agree (Execute (NewRegistry L client) L w st rt1)
                   (Execute (NewRegistry L client) L w st rt2)
     \<and> (\<forall>res1. fst (Execute (NewRegistry L client) L w st rt1) = Returned res1 \<longrightarrow>
          (\<exists>res2. fst (Execute (NewRegistry L client) L w st rt2) = Returned res2
             \<and> x_Status res1 = x_Status res2
             \<and> length (Steps res1) = length (Steps res2)
             \<and> (\<forall>i<length (Steps res1).
                   StepNumber (Steps res1 ! i) = StepNumber (Steps res2 ! i)
                   \<and> NodeID (Steps res1 ! i) = NodeID (Steps res2 ! i)
                   \<and> NodeType (Steps res1 ! i) = NodeType (Steps res2 ! i)
                   \<and> s_Label (Steps res1 ! i) = s_Label (Steps res2 ! i)
                   \<and> Status (Steps res1 ! i) = Status (Steps res2 ! i)
                   \<and> Error (Steps res1 ! i) = Error (Steps res2 ! i)
                   \<and> erase_bag (Output (Steps res1 ! i)) = erase_bag (Output (Steps res2 ! i)))
             \<and> ExecutionID res1 = uuids rt1 (drawn rt1)
             \<and> uuids (snd (snd (Execute (NewRegistry L client) L w st rt1))) = uuids rt1
             \<and> drawn (snd (snd (Execute (NewRegistry L client) L w st rt1))) = Suc (drawn rt1)
             \<and> ExecutionID res2 = uuids rt2 (drawn rt2)
             \<and> (inj (uuids rt1) \<longrightarrow>
                  called_after (snd (snd (Execute (NewRegistry L client) L w st rt1))) rt2 \<longrightarrow>
                  ExecutionID res1 \<noteq> ExecutionID res2)))"
proof (intro conjI allI impI)
  let ?E1 = "Execute (NewRegistry L client) L w st rt1"
  let ?E2 = "Execute (NewRegistry L client) L w st rt2"
  show a: "run_agree ?E1 ?E2"
    by (rule Execute_agree[OF NewRegistry_clock_blind s])
  fix res1
  assume r1: "fst ?E1 = Returned res1"
  with a have "erase_run (Returned res1) = erase_run (fst ?E2)" by (simp add: run_agree_def)
  from erase_run_ReturnedD[OF this] obtain res2 where r2: "fst ?E2 = Returned res2"
    and xs: "x_Status res1 = x_Status res2"
    and ss: "map erase_step (Steps res1) = map erase_step (Steps res2)" by blast
  from ss have len: "length (Steps res1) = length (Steps res2)" by (rule map_eq_imp_length_eq)
  have each: "erase_step (Steps res1 ! i) = erase_step (Steps res2 ! i)" if "i < length (Steps res1)" for i
    using that len nth_map[of i "Steps res1" erase_step] nth_map[of i "Steps res2" erase_step] ss
    by simp
  have e1: "?E1 = (Returned res1, fst (snd ?E1), snd (snd ?E1))" using r1 by (cases ?E1) simp
  have e2: "?E2 = (Returned res2, fst (snd ?E2), snd (snd ?E2))" using r2 by (cases ?E2) simp
  from Execute_effect[OF NewRegistry_quiet e1] have i1: "ExecutionID res1 = uuids rt1 (drawn rt1)"
    by simp
  from Execute_effect[OF NewRegistry_quiet e2] have i2: "ExecutionID res2 = uuids rt2 (drawn rt2)"
    by simp
  from Execute_sources[OF NewRegistry_quiet e1]
  have u1: "uuids (snd (snd ?E1)) = uuids rt1" and d1: "drawn (snd (snd ?E1)) = Suc (drawn rt1)"
    by simp_all
  have ne: "ExecutionID res1 \<noteq> ExecutionID res2"
    if j: "inj (uuids rt1)" and c: "called_after (snd (snd ?E1)) rt2"
  proof -
    from c u1 d1 have "uuids rt2 = uuids rt1" "drawn rt1 < drawn rt2"
      by (simp_all add: called_after_def)
    with i1 i2 j show ?thesis by (auto dest: injD)
  qed
  show "\<exists>res2. fst ?E2 = Returned res2
             \<and> x_Status res1 = x_Status res2
             \<and> length (Steps res1) = length (Steps res2)
             \<and> (\<forall>i<length (Steps res1).
                   StepNumber (Steps res1 ! i) = StepNumber (Steps res2 ! i)
                   \<and> NodeID (Steps res1 ! i) = NodeID (Steps res2 ! i)
                   \<and> NodeType (Steps res1 ! i) = NodeType (Steps res2 ! i)
                   \<and> s_Label (Steps res1 ! i) = s_Label (Steps res2 ! i)
                   \<and> Status (Steps res1 ! i) = Status (Steps res2 ! i)
                   \<and> Error (Steps res1 ! i) = Error (Steps res2 ! i)
                   \<and> erase_bag (Output (Steps res1 ! i)) = erase_bag (Output (Steps res2 ! i)))
             \<and> ExecutionID res1 = uuids rt1 (drawn rt1)
             \<and> uuids (snd (snd ?E1)) = uuids rt1
             \<and> drawn (snd (snd ?E1)) = Suc (drawn rt1)
             \<and> ExecutionID res2 = uuids rt2 (drawn rt2)
             \<and> (inj (uuids rt1) \<longrightarrow> called_after (snd (snd ?E1)) rt2 \<longrightarrow>
                  ExecutionID res1 \<noteq> ExecutionID res2)"
    using r2 xs len i1 i2 u1 d1 ne erase_step_eqD[OF each] by (intro exI[of _ res2]) simp
qed

lemma happy_path:
  assumes c: "cells rt0 = test_cells"
  shows "\<exists>res. fst (Execute (NewRegistry example_lib (mockWeatherClient 30 None)) example_lib
                  testWorkflow test_state rt0) = Returned res
           \<and> x_Status res = ''completed'' \<and> length (Steps res) = 6"
proof -
  let ?R = "NewRegistry example_lib (mockWeatherClient (30::rat) None)"
  have "\<exists>c c'. visit ?R example_lib testWorkflow test_state rt0 (Suc (Suc (Suc (Suc (Suc 0))))) = Some c
    \<and> pass ?R example_lib testWorkflow test_state rt0 c = Break c' \<and> length (steps c') = 6"
    using c by (simp add: eval_defs ascii_space_def ascii_lower_def evaluateCondition_def)
  then obtain c c' where v: "visit ?R example_lib testWorkflow test_state rt0 (Suc (Suc (Suc (Suc (Suc 0))))) = Some c"
    and b: "pass ?R example_lib testWorkflow test_state rt0 c = Break c'"
    and l: "length (steps c') = 6" by blast
  have k: "Suc (Suc (Suc (Suc (Suc 0)))) < maxSteps" by (simp add: maxSteps_def)
  from Execute_Break[OF v k b] l show ?thesis
    by (simp add: maxSteps_def results_def split_def Let_def)
qed

lemma unary_tokens_inj: "inj (uuids unary_tokens)"
  by (simp add: unary_tokens_def inj_on_def replicate_eq_replicate)

theorem successive_runs_agree_witness:
  "\<exists>res1 res2.
     fst (Execute (NewRegistry example_lib (mockWeatherClient 30 None)) example_lib
            testWorkflow test_state unary_tokens) = Returned res1
     \<and> fst (Execute (NewRegistry example_lib (mockWeatherClient 30 None)) example_lib
            testWorkflow test_state later_tokens) = Returned res2
     \<and> x_Status res1 = ''completed'' \<and> x_Status res2 = ''completed''
     \<and> length (Steps res1) = 6 \<and> length (Steps res2) = 6
     \<and> map Status (Steps res1) = map Status (Steps res2)
     \<and> drawn (snd (snd (Execute (NewRegistry example_lib (mockWeatherClient 30 None)) example_lib
            testWorkflow test_state unary_tokens))) = Suc 0
     \<and> ExecutionID res1 = ''u'' \<and> ExecutionID res2 = ''uu''
     \<and> ExecutionID res1 \<noteq> ExecutionID res2"
proof -
  let ?R = "NewRegistry example_lib (mockWeatherClient (30::rat) None)"
  let ?E1 = "Execute ?R example_lib testWorkflow test_state unary_tokens"
  have s: "same_store unary_tokens later_tokens"
    by (simp add: same_store_def later_tokens_def)
  have c1: "cells unary_tokens = test_cells" by (simp add: unary_tokens_def test_runtime_def)
  from happy_path[OF c1] obtain res1 where
    r1: "fst ?E1 = Returned res1"
    and x1: "x_Status res1 = ''completed''" and l1: "length (Steps res1) = 6" by blast
  from successive_runs_agree[OF s, where L=example_lib and client="mockWeatherClient 30 None"
      and w=testWorkflow and st=test_state, THEN conjunct2, rule_format, OF r1]
  obtain res2 where
    r2: "fst (Execute ?R example_lib testWorkflow test_state later_tokens) = Returned res2"
    and x: "x_Status res1 = x_Status res2" and l: "length (Steps res1) = length (Steps res2)"
    and e: "\<forall>i<length (Steps res1). Status (Steps res1 ! i) = Status (Steps res2 ! i)"
    and i1: "ExecutionID res1 = uuids unary_tokens (drawn unary_tokens)"
    and u: "uuids (snd (snd ?E1)) = uuids unary_tokens"
    and d: "drawn (snd (snd ?E1)) = Suc (drawn unary_tokens)"
    and i2: "ExecutionID res2 = uuids later_tokens (drawn later_tokens)"
    and ne: "inj (uuids unary_tokens) \<longrightarrow> called_after (snd (snd ?E1)) later_tokens \<longrightarrow>
                  ExecutionID res1 \<noteq> ExecutionID res2"
    by blast
  have m: "map Status (Steps res1) = map Status (Steps res2)"
    using l e by (simp add: list_eq_iff_nth_eq)
  have d0: "drawn unary_tokens = 0" by (simp add: unary_tokens_def test_runtime_def)
  have ca: "called_after (snd (snd ?E1)) later_tokens"
    using u d d0 by (simp add: called_after_def later_tokens_def)
  from ne unary_tokens_inj ca have n: "ExecutionID res1 \<noteq> ExecutionID res2" by simp
  have u1: "uuids unary_tokens (drawn unary_tokens) = ''u''"
    by (simp add: unary_tokens_def test_runtime_def)
  have u2: "uuids later_tokens (drawn later_tokens) = ''uu''"
    by (simp add: later_tokens_def unary_tokens_def)
  show ?thesis
    using r1 r2 x1 x l1 l m i1 i2 u1 u2 d d0 n by simp
qed

end
